theory Spec2Isabelle
  imports Complex_Main
begin

section \<open>Python values shared by the model\<close>

text \<open>
  Python strings are modelled as \<^typ>\<open>string\<close>, a list of bytes (the UTF-8 encoding of the
  Python text). The string operations of the program that are modelled below either search
  for ASCII characters (\<open>.\<close>, \<open>/\<close>, ASCII letters), which is byte-safe on UTF-8, or work
  on the characters of the text, each one to four bytes long (\<open>strip\<close> and \<open>int\<close>, which
  know the white space and the digits of Unicode). Exceptions are values of \<open>py_error\<close>; a
  function that may raise returns
  \<open>py_error + 'a\<close>, with \<open>Inl\<close> for the exception.
\<close>

datatype py_error =
    ZeroDivisionError
  | IndexError
  | ValueError
  | FileNotFoundError string
  | IsADirectoryError string
  | BadZipFile string
  | LibraryError string

section \<open>utils.py: ProgressTracker\<close>

text \<open>
  \<^verbatim>\<open>
  def __init__(self, total, description="..."):
      self.total = total
      self.current = 0
      self.description = description
      self.lock = threading.Lock()
  \<close>
  The lock is not a field of the model: \<open>update\<close> and \<open>get_progress\<close> run their whole body
  under it, so each call is one atomic step and a concurrent run of several callers is a
  sequence of calls (see \<open>run_calls\<close> below). The constructor has no check and no
  \<^verbatim>\<open>raise\<close>, hence its model returns the object itself.
\<close>

record ProgressTracker =
  total :: int
  current :: int
  description :: string

definition ProgressTracker_init :: "int \<Rightarrow> string \<Rightarrow> ProgressTracker" where
  "ProgressTracker_init tot descr = \<lparr>total = tot, current = 0, description = descr\<rparr>"

text \<open>
  The dictionary returned by \<open>update\<close> and \<open>get_progress\<close>, with its four keys
  \<^verbatim>\<open>"current"\<close>, \<^verbatim>\<open>"total"\<close>, \<^verbatim>\<open>"progress"\<close>, \<^verbatim>\<open>"percentage"\<close>.
  Python's \<^verbatim>\<open>current / total\<close> on two ints is true division, a float; it is modelled by the
  exact quotient in \<^typ>\<open>real\<close> (the float is that quotient correctly rounded, and rounding is
  monotone and keeps 0 and 1). Division by zero raises \<^verbatim>\<open>ZeroDivisionError\<close>.
\<close>

record snapshot =
  snap_current :: int
  snap_total :: int
  snap_progress :: real
  snap_percentage :: real

definition py_truediv :: "int \<Rightarrow> int \<Rightarrow> py_error + real" where
  "py_truediv a b = (if b = 0 then Inl ZeroDivisionError else Inr (real_of_int a / real_of_int b))"

definition progress_info :: "ProgressTracker \<Rightarrow> py_error + snapshot" where
  "progress_info tr =
     (case py_truediv (current tr) (total tr) of
        Inl e \<Rightarrow> Inl e
      | Inr q \<Rightarrow>
          (let progress = min q 1; percentage = progress * 100
           in Inr \<lparr>snap_current = current tr, snap_total = total tr,
                    snap_progress = progress, snap_percentage = percentage\<rparr>))"

text \<open>
  \<^verbatim>\<open>
  def update(self, increment=1):
      with self.lock:
          self.current += increment
          progress = min(self.current / self.total, 1.0)
          percentage = progress * 100
          logger.info(...)
          return {"current": ..., "total": ..., "progress": progress, "percentage": percentage}
  \<close>
  The counter is incremented before the division, so it stays incremented when the division
  raises. The result is the pair of what the call returns (or raises) and the object afterwards.
\<close>

definition update :: "ProgressTracker \<Rightarrow> int \<Rightarrow> (py_error + snapshot) \<times> ProgressTracker" where
  "update tr increment =
     (let tr' = tr\<lparr>current := current tr + increment\<rparr>
      in (progress_info tr', tr'))"

definition get_progress :: "ProgressTracker \<Rightarrow> (py_error + snapshot) \<times> ProgressTracker" where
  "get_progress tr = (progress_info tr, tr)"

text \<open>
  Calls from any number of callers: each call names its caller (a thread), and the lock
  orders the calls, so a concurrent run is the list of calls in the order in which they took
  the lock. \<open>Update c\<close> is \<^verbatim>\<open>update()\<close> with the default increment 1.
\<close>

datatype 'c tracker_call = Update 'c | GetProgress 'c

fun do_call :: "ProgressTracker \<Rightarrow> 'c tracker_call \<Rightarrow> (py_error + snapshot) \<times> ProgressTracker" where
  "do_call tr (Update c) = update tr 1"
| "do_call tr (GetProgress c) = get_progress tr"

fun run_calls :: "ProgressTracker \<Rightarrow> 'c tracker_call list \<Rightarrow> (py_error + snapshot) list \<times> ProgressTracker" where
  "run_calls tr [] = ([], tr)"
| "run_calls tr (c # cs) =
     (let (out, tr') = do_call tr c; (outs, tr'') = run_calls tr' cs
      in (out # outs, tr''))"

fun is_update :: "'c tracker_call \<Rightarrow> bool" where
  "is_update (Update c) = True"
| "is_update (GetProgress c) = False"

definition snapshot_ok :: "py_error + snapshot \<Rightarrow> bool" where
  "snapshot_ok out =
     (case out of
        Inl e \<Rightarrow> False
      | Inr s \<Rightarrow> 0 \<le> snap_progress s \<and> snap_progress s \<le> 1
                \<and> snap_progress s = min (real_of_int (snap_current s) / real_of_int (snap_total s)) 1)"

section \<open>utils.py: ParallelProcessor\<close>

text \<open>
  \<^verbatim>\<open>
  def __init__(self, max_workers=None):
      if max_workers is None:
          import multiprocessing
          max_workers = multiprocessing.cpu_count() * 2
      self.max_workers = max_workers
  \<close>
  The number of CPUs is a parameter of the model.
\<close>

record ParallelProcessor =
  max_workers :: int

definition ParallelProcessor_init :: "int option \<Rightarrow> nat \<Rightarrow> ParallelProcessor" where
  "ParallelProcessor_init max_workers_arg cpu_count =
     (case max_workers_arg of
        None \<Rightarrow> \<lparr>max_workers = int cpu_count * 2\<rparr>
      | Some m \<Rightarrow> \<lparr>max_workers = m\<rparr>)"

text \<open>
  \<^verbatim>\<open>
  def process_items(self, items, process_func, callback=None):
      results = []
      with ThreadPoolExecutor(max_workers=self.max_workers) as executor:
          future_to_item = {executor.submit(process_func, item): item for item in items}
          for future in future_to_item:
              try:
                  result = future.result()
                  results.append(result)
                  if callback:
                      item = future_to_item[future]
                      callback(item, result)
              except Exception as e:
                  logger.error(...)
      return results
  \<close>

  The model of the thread pool. A job is \<open>process_func item\<close>, run on a worker thread: it
  acts on the shared world \<open>'s\<close> (files, objects captured by closures) and either returns a
  result (\<open>Inr\<close>) or raises (\<open>Inl\<close>). The jobs are taken to be atomic: a job takes effect
  on the world at the moment it completes. The order in which the jobs complete is not fixed
  by the program; it is the parameter \<open>completion\<close>, the list of the job numbers (the
  position of the item in \<open>items\<close>), earliest first. The pool starts the jobs in the order
  of submission and runs at most \<open>max_workers\<close> of them at a time, so the job that completes
  as the \<open>i\<close>-th (counted from 0) is one of the first \<open>i + max_workers\<close> jobs; a list that is
  not such a permutation of the job numbers stands for the order of submission.

  The main thread owns the pool state: \<open>pending\<close> are the jobs still running, in the order in
  which they will complete, \<open>finished\<close> maps each completed job to its outcome (the state of
  its future), \<open>results\<close> is the local list, and \<open>trace\<close> records what happened in order:
  \<open>Finished k out\<close> when job \<open>k\<close> has returned or raised, \<open>Called k item r\<close> when the main
  thread invokes \<open>callback(item, r)\<close> for job \<open>k\<close>, and \<open>Logged e\<close> for \<open>logger.error\<close> in the
  handler.
\<close>

datatype ('a, 'r) event =
    Finished nat "py_error + 'r"
  | Called nat 'a 'r
  | Logged py_error

record ('s, 'a, 'r) pool =
  world :: 's
  pending :: "nat list"
  finished :: "nat \<rightharpoonup> py_error + 'r"
  results :: "'r list"
  trace :: "('a, 'r) event list"

definition run_job ::
  "('a \<Rightarrow> 's \<Rightarrow> (py_error + 'r) \<times> 's) \<Rightarrow> 'a list \<Rightarrow> nat \<Rightarrow> ('s, 'a, 'r) pool
     \<Rightarrow> (py_error + 'r) \<times> ('s, 'a, 'r) pool" where
  "run_job process_func items j p =
     (let (out, w') = process_func (items ! j) (world p)
      in (out, p\<lparr>world := w', finished := (finished p)(j \<mapsto> out),
                  trace := trace p @ [Finished j out]\<rparr>))"

definition run_jobs ::
  "('a \<Rightarrow> 's \<Rightarrow> (py_error + 'r) \<times> 's) \<Rightarrow> 'a list \<Rightarrow> nat list \<Rightarrow> ('s, 'a, 'r) pool
     \<Rightarrow> ('s, 'a, 'r) pool" where
  "run_jobs process_func items js p = fold (\<lambda>j q. snd (run_job process_func items j q)) js p"

text \<open>
  \<open>future.result()\<close> for the future of job \<open>k\<close> blocks until that job is done: the jobs that
  complete before it do so first. It returns the job's result or re-raises its exception.
  A job that completes after the awaited one is taken to complete when the main thread next
  waits, for it or for a job that completes after it.
\<close>

definition future_result ::
  "('a \<Rightarrow> 's \<Rightarrow> (py_error + 'r) \<times> 's) \<Rightarrow> 'a list \<Rightarrow> nat \<Rightarrow> ('s, 'a, 'r) pool
     \<Rightarrow> (py_error + 'r) \<times> ('s, 'a, 'r) pool" where
  "future_result process_func items k p =
     (case finished p k of
        Some out \<Rightarrow> (out, p)
      | None \<Rightarrow>
          (let earlier = (if k \<in> set (pending p) then takeWhile (\<lambda>j. j \<noteq> k) (pending p) else []);
               p1 = run_jobs process_func items earlier
                      (p\<lparr>pending := filter (\<lambda>j. j \<noteq> k \<and> j \<notin> set earlier) (pending p)\<rparr>)
           in run_job process_func items k p1))"

text \<open>
  One iteration of the loop, for the future of job \<open>k\<close>. The dictionary \<open>future_to_item\<close>
  is keyed by the futures, which are distinct objects, and iterates in insertion order, which
  is the order of \<open>items\<close>; \<open>future_to_item[future]\<close> is \<open>items ! k\<close>. The handler covers the
  whole body: an exception of the job skips \<open>append\<close> and the callback; an exception of the
  callback (\<open>Some e\<close> in its model) is logged after the result has been appended.
\<close>

definition collect ::
  "('a \<Rightarrow> 's \<Rightarrow> (py_error + 'r) \<times> 's) \<Rightarrow> ('a \<Rightarrow> 'r \<Rightarrow> 's \<Rightarrow> py_error option \<times> 's) option
     \<Rightarrow> 'a list \<Rightarrow> nat \<Rightarrow> ('s, 'a, 'r) pool \<Rightarrow> ('s, 'a, 'r) pool" where
  "collect process_func callback items k p =
     (case future_result process_func items k p of
        (Inl e, p1) \<Rightarrow> p1\<lparr>trace := trace p1 @ [Logged e]\<rparr>
      | (Inr result, p1) \<Rightarrow>
          (let p2 = p1\<lparr>results := results p1 @ [result]\<rparr>
           in case callback of
                None \<Rightarrow> p2
              | Some cb \<Rightarrow>
                  (case cb (items ! k) result (world p2) of
                     (None, w') \<Rightarrow>
                       p2\<lparr>world := w', trace := trace p2 @ [Called k (items ! k) result]\<rparr>
                   | (Some e, w') \<Rightarrow>
                       p2\<lparr>world := w',
                          trace := trace p2 @ [Called k (items ! k) result, Logged e]\<rparr>)))"

fun feasible :: "nat \<Rightarrow> nat \<Rightarrow> nat list \<Rightarrow> bool" where
  "feasible workers i [] = True"
| "feasible workers i (j # js) = (j < i + workers \<and> feasible workers (Suc i) js)"

definition completion_order :: "nat \<Rightarrow> nat \<Rightarrow> nat list \<Rightarrow> nat list" where
  "completion_order workers n completion =
     (if distinct completion \<and> length completion = n \<and> list_all (\<lambda>j. j < n) completion
         \<and> feasible workers 0 completion
      then completion else [0..<n])"

text \<open>
  \<open>ThreadPoolExecutor(max_workers)\<close> raises \<^verbatim>\<open>ValueError\<close> for \<open>max_workers \<le> 0\<close>, outside the
  handler. Leaving the \<^verbatim>\<open>with\<close> block waits for all jobs; the loop has awaited each of them
  by then. The value returned by the Python function is \<open>results\<close> of the final pool state.
\<close>

definition process_items ::
  "ParallelProcessor \<Rightarrow> 'a list \<Rightarrow> ('a \<Rightarrow> 's \<Rightarrow> (py_error + 'r) \<times> 's)
     \<Rightarrow> ('a \<Rightarrow> 'r \<Rightarrow> 's \<Rightarrow> py_error option \<times> 's) option \<Rightarrow> nat list \<Rightarrow> 's
     \<Rightarrow> py_error + ('s, 'a, 'r) pool" where
  "process_items self items process_func callback completion w =
     (if max_workers self \<le> 0 then Inl ValueError
      else Inr (fold (collect process_func callback items) [0..<length items]
                  \<lparr>world = w,
                   pending = completion_order (nat (max_workers self)) (length items) completion,
                   finished = Map.empty, results = [], trace = []\<rparr>))"

text \<open>Observations on a run: the callback invocations and the job completions, in order.\<close>

definition calls_of :: "('a, 'r) event list \<Rightarrow> (nat \<times> 'a \<times> 'r) list" where
  "calls_of es = List.map_filter (\<lambda>e. case e of Called k x r \<Rightarrow> Some (k, x, r) | _ \<Rightarrow> None) es"

definition completions_of :: "('a, 'r) event list \<Rightarrow> (nat \<times> (py_error + 'r)) list" where
  "completions_of es = List.map_filter (\<lambda>e. case e of Finished k out \<Rightarrow> Some (k, out) | _ \<Rightarrow> None) es"

text \<open>
  Replaying a trace from the initial world: at \<open>Finished k out\<close> the job function is applied
  to the \<open>k\<close>-th item in the world of that moment and must yield the recorded outcome, at
  \<open>Called k x r\<close> the callback is applied to \<open>x\<close> and \<open>r\<close>, with \<open>x\<close> the \<open>k\<close>-th item. The
  replay gives the world after these applications, or \<open>None\<close> if the trace does not match
  them (or names a job that was not submitted, or a call without a callback).
\<close>

fun replay ::
  "('a \<Rightarrow> 's \<Rightarrow> (py_error + 'r) \<times> 's) \<Rightarrow> ('a \<Rightarrow> 'r \<Rightarrow> 's \<Rightarrow> py_error option \<times> 's) option
     \<Rightarrow> 'a list \<Rightarrow> 's \<Rightarrow> ('a, 'r) event list \<Rightarrow> 's option" where
  "replay process_func callback items w [] = Some w"
| "replay process_func callback items w (Finished k out # es) =
     (if k < length items \<and> fst (process_func (items ! k) w) = out
      then replay process_func callback items (snd (process_func (items ! k) w)) es
      else None)"
| "replay process_func callback items w (Called k x r # es) =
     (case callback of
        None \<Rightarrow> None
      | Some cb \<Rightarrow>
          if k < length items \<and> x = items ! k
          then replay process_func callback items (snd (cb x r w)) es
          else None)"
| "replay process_func callback items w (Logged e # es) = replay process_func callback items w es"

text \<open>The result of job \<open>k\<close> if it returned, and whether it raised.\<close>

definition returned :: "('s, 'a, 'r) pool \<Rightarrow> nat \<Rightarrow> 'r option" where
  "returned p k = (case finished p k of Some (Inr r) \<Rightarrow> Some r | _ \<Rightarrow> None)"

definition raised :: "('s, 'a, 'r) pool \<Rightarrow> nat \<Rightarrow> bool" where
  "raised p k = (case finished p k of Some (Inl e) \<Rightarrow> True | _ \<Rightarrow> False)"

text \<open>Every callback invocation comes after the completion of its own job, with that job's result.\<close>

definition called_late :: "('a, 'r) event list \<Rightarrow> bool" where
  "called_late es =
     (\<forall>i<length es. \<forall>k x r. es ! i = Called k x r \<longrightarrow> (\<exists>j<i. es ! j = Finished k (Inr r)))"

text \<open>
  What the callback invocations are expected to be after the first \<open>m\<close> futures: one for each
  job that returned, in the order of the items.
\<close>

definition calls_expected ::
  "('a \<Rightarrow> 'r \<Rightarrow> 's \<Rightarrow> py_error option \<times> 's) option \<Rightarrow> 'a list \<Rightarrow> ('s, 'a, 'r) pool \<Rightarrow> nat
     \<Rightarrow> (nat \<times> 'a \<times> 'r) list" where
  "calls_expected cb items p m =
     (case cb of
        None \<Rightarrow> []
      | Some c \<Rightarrow> List.map_filter (\<lambda>k. map_option (\<lambda>r. (k, items ! k, r)) (returned p k)) [0..<m])"

text \<open>Invariants of the pool state, used in the proofs.\<close>

definition trace_ok :: "('s, 'a, 'r) pool \<Rightarrow> bool" where
  "trace_ok p = (distinct (map fst (completions_of (trace p)))
                 \<and> map_of (completions_of (trace p)) = finished p)"

definition completions_only :: "('a, 'r) event list \<Rightarrow> bool" where
  "completions_only es = list_all (\<lambda>e. case e of Finished j out \<Rightarrow> True | _ \<Rightarrow> False) es"

definition pool_wf :: "('s, 'a, 'r) pool \<Rightarrow> bool" where
  "pool_wf p = (distinct (pending p) \<and> set (pending p) \<inter> dom (finished p) = {} \<and> trace_ok p)"

definition job_outcomes ::
  "('a \<Rightarrow> 's \<Rightarrow> (py_error + 'r) \<times> 's) \<Rightarrow> 'a list \<Rightarrow> ('s, 'a, 'r) pool \<Rightarrow> bool" where
  "job_outcomes f items p =
     (\<forall>k out. finished p k = Some out \<longrightarrow> (\<exists>w. out = fst (f (items ! k) w)))"

definition replay_ok ::
  "('a \<Rightarrow> 's \<Rightarrow> (py_error + 'r) \<times> 's) \<Rightarrow> ('a \<Rightarrow> 'r \<Rightarrow> 's \<Rightarrow> py_error option \<times> 's) option
     \<Rightarrow> 'a list \<Rightarrow> 's \<Rightarrow> ('s, 'a, 'r) pool \<Rightarrow> bool" where
  "replay_ok f cb items w0 p =
     (replay f cb items w0 (trace p) = Some (world p) \<and> set (pending p) \<subseteq> {..<length items})"

text \<open>A job and a callback for the examples: the job raises on negative items, the callback counts.\<close>

definition job_tenfold :: "int \<Rightarrow> nat \<Rightarrow> (py_error + int) \<times> nat" where
  "job_tenfold x w = (if x < 0 then Inl ValueError else Inr (x * 10), w)"

definition count_callback :: "int \<Rightarrow> int \<Rightarrow> nat \<Rightarrow> py_error option \<times> nat" where
  "count_callback x r w = (None, Suc w)"


section \<open>Strings and paths of the Python library\<close>

text \<open>
  The functions of \<open>str\<close> and \<open>os.path\<close> (POSIX) that the program calls. \<open>lower\<close> acts
  on the ASCII letters; the case mappings of Unicode beyond ASCII are outside the byte model
  (no text with a non-ASCII character lowers to one of the extensions the program compares
  with, \<open>.pdf .doc .docx .jpg .jpeg .png .gif\<close>).
\<close>

definition lower_char :: "char \<Rightarrow> char" where
  "lower_char c =
     (case map_of (zip ''ABCDEFGHIJKLMNOPQRSTUVWXYZ'' ''abcdefghijklmnopqrstuvwxyz'') c of
        Some d \<Rightarrow> d
      | None \<Rightarrow> c)"

definition lower :: "string \<Rightarrow> string" where
  "lower s = map lower_char s"

text \<open>
  A text is the list of its characters, each one to four bytes long in UTF-8, the length
  given by the first byte. \<open>s.strip()\<close> removes the white space of Unicode from both ends:
  the ASCII characters 09 to 0D, 1C to 1F and 20, and U+0085, U+00A0, U+1680, U+2000 to
  U+200A, U+2028, U+2029, U+202F, U+205F and U+3000, here by their UTF-8 bytes.
\<close>

definition utf8_len :: "char \<Rightarrow> nat" where
  "utf8_len c =
     (if (of_char c :: nat) < 0xC0 then 1
      else if (of_char c :: nat) < 0xE0 then 2
      else if (of_char c :: nat) < 0xF0 then 3 else 4)"

function utf8_chars :: "string \<Rightarrow> string list" where
  "utf8_chars s =
     (if s = [] then []
      else take (utf8_len (hd s)) s # utf8_chars (drop (utf8_len (hd s)) s))"
  by pat_completeness auto
termination
  by (relation "measure length") (auto simp: utf8_len_def)

declare utf8_chars.simps [simp del]

definition whitespace :: "string list" where
  "whitespace =
     [ [CHR 0x09], [CHR 0x0A], [CHR 0x0B], [CHR 0x0C], [CHR 0x0D],
       [CHR 0x1C], [CHR 0x1D], [CHR 0x1E], [CHR 0x1F], [CHR 0x20],
       [CHR 0xC2, CHR 0x85], [CHR 0xC2, CHR 0xA0], [CHR 0xE1, CHR 0x9A, CHR 0x80],
       [CHR 0xE2, CHR 0x80, CHR 0x80], [CHR 0xE2, CHR 0x80, CHR 0x81],
       [CHR 0xE2, CHR 0x80, CHR 0x82], [CHR 0xE2, CHR 0x80, CHR 0x83],
       [CHR 0xE2, CHR 0x80, CHR 0x84], [CHR 0xE2, CHR 0x80, CHR 0x85],
       [CHR 0xE2, CHR 0x80, CHR 0x86], [CHR 0xE2, CHR 0x80, CHR 0x87],
       [CHR 0xE2, CHR 0x80, CHR 0x88], [CHR 0xE2, CHR 0x80, CHR 0x89],
       [CHR 0xE2, CHR 0x80, CHR 0x8A], [CHR 0xE2, CHR 0x80, CHR 0xA8],
       [CHR 0xE2, CHR 0x80, CHR 0xA9], [CHR 0xE2, CHR 0x80, CHR 0xAF],
       [CHR 0xE2, CHR 0x81, CHR 0x9F], [CHR 0xE3, CHR 0x80, CHR 0x80] ]"

definition is_space :: "string \<Rightarrow> bool" where
  "is_space ch = (ch \<in> set whitespace)"

definition strip :: "string \<Rightarrow> string" where
  "strip s = concat (rev (dropWhile is_space (rev (dropWhile is_space (utf8_chars s)))))"

definition startswith :: "string \<Rightarrow> string \<Rightarrow> bool" where
  "startswith s pre = (take (length pre) s = pre)"

text \<open>\<open>s.replace(old, new)\<close>: every occurrence, from the left, without overlap.\<close>

function py_replace :: "string \<Rightarrow> string \<Rightarrow> string \<Rightarrow> string" where
  "py_replace old new s =
     (if old = [] then new @ concat (map (\<lambda>c. c # new) s)
      else if s = [] then []
      else if startswith s old then new @ py_replace old new (drop (length old) s)
      else hd s # py_replace old new (tl s))"
  by pat_completeness auto
termination
  by (relation "measure (\<lambda>(old, new, s). length s)") auto

declare py_replace.simps [simp del]

text \<open>\<open>sep.join(xs)\<close>, and \<open>s.split(sep)[0]\<close> for a separator of one character.\<close>

fun py_join :: "string \<Rightarrow> string list \<Rightarrow> string" where
  "py_join sep [] = []"
| "py_join sep [x] = x"
| "py_join sep (x # y # ys) = x @ sep @ py_join sep (y # ys)"

definition split_first :: "char \<Rightarrow> string \<Rightarrow> string" where
  "split_first sep s = takeWhile (\<lambda>c. c \<noteq> sep) s"

text \<open>
  \<open>int(s)\<close> on a text, base 10. Every character beyond ASCII is first replaced: white
  space by a space, a decimal digit of Unicode by the ASCII digit of its value; any other
  character beyond ASCII makes the text invalid. ASCII characters are kept. Then white space
  of C (09 to 0D and 20) is skipped at both ends, and what remains is an optional sign and
  digits, with single underscores allowed between digits; anything else raises
  \<^verbatim>\<open>ValueError\<close>. Which characters beyond ASCII are decimal digits depends on the Unicode
  database of the Python in use: it is the parameter \<open>dec\<close>, from the UTF-8 bytes of a
  character to its value. So does the limit on the number of digits (underscores not
  counted, leading zeros counted) beyond which \<open>int\<close> raises \<^verbatim>\<open>ValueError\<close>: it is the
  parameter \<open>max_digits\<close>, 4300 by default in the versions of Python that have the limit, and 0
  where there is none.
\<close>

definition digit_val :: "char \<Rightarrow> nat option" where
  "digit_val c = map_of (zip ''0123456789'' [0, 1, 2, 3, 4, 5, 6, 7, 8, 9]) c"

fun parse_digits :: "nat \<Rightarrow> string \<Rightarrow> nat option" where
  "parse_digits acc [] = Some acc"
| "parse_digits acc [c] = map_option (\<lambda>v. acc * 10 + v) (digit_val c)"
| "parse_digits acc (c # d # ds) =
     (if c = CHR ''_''
      then (case digit_val d of None \<Rightarrow> None | Some v \<Rightarrow> parse_digits (acc * 10 + v) ds)
      else (case digit_val c of None \<Rightarrow> None | Some v \<Rightarrow> parse_digits (acc * 10 + v) (d # ds)))"

definition c_space :: "char \<Rightarrow> bool" where
  "c_space c = (c \<in> set [CHR 0x09, CHR 0x0A, CHR 0x0B, CHR 0x0C, CHR 0x0D, CHR 0x20])"

fun decimal_and_space_to_ascii :: "(string \<Rightarrow> nat option) \<Rightarrow> string list \<Rightarrow> string option" where
  "decimal_and_space_to_ascii dec [] = Some []"
| "decimal_and_space_to_ascii dec (ch # chs) =
     (case (if (of_char (hd ch) :: nat) < 0x80 then Some ch
            else if is_space ch then Some '' ''
            else (case dec ch of
                    None \<Rightarrow> None
                  | Some v \<Rightarrow> if v < 10 then Some [''0123456789'' ! v] else None)) of
        None \<Rightarrow> None
      | Some a \<Rightarrow> map_option (\<lambda>rest. a @ rest) (decimal_and_space_to_ascii dec chs))"

definition py_int :: "(string \<Rightarrow> nat option) \<Rightarrow> nat \<Rightarrow> string \<Rightarrow> py_error + int" where
  "py_int dec max_digits s =
     (case decimal_and_space_to_ascii dec (utf8_chars s) of
        None \<Rightarrow> Inl ValueError
      | Some ascii \<Rightarrow>
          (let t = rev (dropWhile c_space (rev (dropWhile c_space ascii)));
               (sign, body) = (case t of
                                 c # r \<Rightarrow> if c = CHR ''-'' then (- 1, r)
                                          else if c = CHR ''+'' then (1, r) else (1 :: int, t)
                               | [] \<Rightarrow> (1, t))
           in case body of
                [] \<Rightarrow> Inl ValueError
              | c # cs \<Rightarrow>
                  (case digit_val c of
                     None \<Rightarrow> Inl ValueError
                   | Some v \<Rightarrow>
                       (case parse_digits v cs of
                          None \<Rightarrow> Inl ValueError
                        | Some n \<Rightarrow>
                            if 0 < max_digits \<and> max_digits < length (filter (\<lambda>c. c \<noteq> CHR ''_'') body)
                            then Inl ValueError
                            else Inr (sign * int n)))))"

text \<open>
  \<open>str(i)\<close> for an integer, and \<open>int(x)\<close> for a float, which truncates towards zero. The
  clock value is a \<^typ>\<open>real\<close>.
\<close>

function digits_of :: "int \<Rightarrow> string" where
  "digits_of n =
     (if n < 10 then [''0123456789'' ! nat n]
      else digits_of (n div 10) @ [''0123456789'' ! nat (n mod 10)])"
  by pat_completeness auto
termination
  by (relation "measure nat") auto

declare digits_of.simps [simp del]

definition str_int :: "int \<Rightarrow> string" where
  "str_int i = (if i < 0 then CHR ''-'' # digits_of (- i) else digits_of i)"

definition int_of_float :: "real \<Rightarrow> int" where
  "int_of_float t = (if 0 \<le> t then \<lfloor>t\<rfloor> else \<lceil>t\<rceil>)"

text \<open>
  \<open>os.path.basename\<close>, \<open>os.path.splitext\<close> and \<open>os.path.join\<close> (two arguments).
  \<open>splitext\<close> splits at the last dot of the last path component, unless only dots precede
  it there: \<open>splitext ''d.x/.a.pdf'' = (''d.x/.a'', ''.pdf'')\<close>,
  \<open>splitext ''d.x/.pdf'' = (''d.x/.pdf'', '''')\<close>.
\<close>

definition basename :: "string \<Rightarrow> string" where
  "basename p = rev (takeWhile (\<lambda>c. c \<noteq> CHR ''/'') (rev p))"

definition splitext :: "string \<Rightarrow> string \<times> string" where
  "splitext p =
     (if CHR ''.'' \<in> set (dropWhile (\<lambda>c. c = CHR ''.'') (basename p))
      then (let ext = CHR ''.'' # rev (takeWhile (\<lambda>c. c \<noteq> CHR ''.'') (rev p))
            in (take (length p - length ext) p, ext))
      else (p, []))"

definition path_join :: "string \<Rightarrow> string \<Rightarrow> string" where
  "path_join a b =
     (if startswith b ''/'' then b
      else if a = [] \<or> last a = CHR ''/'' then a @ b
      else a @ ''/'' @ b)"

section \<open>The file system\<close>

text \<open>
  The file system is an association list from paths to nodes, compared as strings. A file
  holds raw bytes or a zip archive, the list of its members (name, content) in the order in
  which they were written; \<open>zipfile\<close> keeps members of equal names side by side. What the
  environment can refuse (permissions, a full disk, a directory where a file is written) is
  not modelled: creating directories and writing files succeed, reading a missing file
  raises. \<open>listdir\<close> lists in the order of the association list; the order of the operating
  system is not specified.
\<close>

datatype fcontent = Bytes string | Archive "(string \<times> fcontent) list"

datatype node = Dir | File fcontent

type_synonym filesystem = "(string \<times> node) list"

definition exists_path :: "filesystem \<Rightarrow> string \<Rightarrow> bool" where
  "exists_path fs p = (map_of fs p \<noteq> None)"

fun put :: "'k \<Rightarrow> 'v \<Rightarrow> ('k \<times> 'v) list \<Rightarrow> ('k \<times> 'v) list" where
  "put p n [] = [(p, n)]"
| "put p n ((q, m) # fs) = (if q = p then (p, n) # fs else (q, m) # put p n fs)"

fun ancestors :: "string \<Rightarrow> string \<Rightarrow> string list" where
  "ancestors acc [] = []"
| "ancestors acc (c # cs) =
     (if c = CHR ''/'' \<and> acc \<noteq> [] then acc # ancestors (acc @ [c]) cs
      else ancestors (acc @ [c]) cs)"

definition mkdir :: "string \<Rightarrow> filesystem \<Rightarrow> filesystem" where
  "mkdir d fs = (if exists_path fs d then fs else put d Dir fs)"

definition makedirs :: "string \<Rightarrow> filesystem \<Rightarrow> filesystem" where
  "makedirs d fs = fold mkdir (ancestors [] d @ [d]) fs"

definition read_file :: "filesystem \<Rightarrow> string \<Rightarrow> py_error + fcontent" where
  "read_file fs p =
     (case map_of fs p of
        Some (File c) \<Rightarrow> Inr c
      | Some Dir \<Rightarrow> Inl (IsADirectoryError p)
      | None \<Rightarrow> Inl (FileNotFoundError p))"

definition write_file :: "string \<Rightarrow> fcontent \<Rightarrow> filesystem \<Rightarrow> filesystem" where
  "write_file p c fs = put p (File c) fs"

definition child_name :: "string \<Rightarrow> string \<Rightarrow> string option" where
  "child_name d p =
     (let rest = drop (Suc (length d)) p
      in if startswith p (d @ ''/'') \<and> rest \<noteq> [] \<and> CHR ''/'' \<notin> set rest then Some rest else None)"

definition listdir :: "filesystem \<Rightarrow> string \<Rightarrow> string list" where
  "listdir fs d = List.map_filter (\<lambda>(p, n). child_name d p) fs"

section \<open>utils.py: FileUtils.ensure_dir\<close>

text \<open>
  \<^verbatim>\<open>
  def ensure_dir(directory):
      if not os.path.exists(directory):
          os.makedirs(directory, exist_ok=True)
      return directory
  \<close>
\<close>

definition ensure_dir :: "string \<Rightarrow> filesystem \<Rightarrow> filesystem" where
  "ensure_dir directory fs = (if \<not> exists_path fs directory then makedirs directory fs else fs)"

section \<open>app.py: the converters\<close>

text \<open>
  The libraries behind the converters are parameters of the model. \<open>pdf_analyze\<close> stands for
  the chain \<open>PymuDocDataset\<close>, \<open>classify\<close>, \<open>apply(doc_analyze)\<close>, \<open>pipe_ocr_mode\<close> or
  \<open>pipe_txt_mode\<close> and \<open>get_markdown\<close> on the bytes of a PDF: it raises, or yields the
  Markdown text and the image files that the image writer puts under the image directory;
  \<open>dump_md\<close> writes that same Markdown text. \<open>image_ocr\<close> is the same for the OCR of an
  image (including \<open>Image.open\<close>). \<open>docx_Document\<close> is \<open>docx.Document\<close>: it raises or yields
  the paragraphs and tables of the document. A paragraph has its text, the name of its style
  and its runs; a run is the list of its drawings, each with its blob if reading \<open>shape.blob\<close>
  succeeds (\<open>None\<close> if it raises). A table is the list of its rows, a row the texts of its
  cells. \<open>unicode_decimal\<close> is the table of the decimal digits beyond ASCII that \<open>int\<close>
  consults and \<open>int_max_str_digits\<close> its limit on the number of digits (see \<open>py_int\<close>).
\<close>

record docx_paragraph =
  para_text :: string
  para_style_name :: string
  para_runs :: "string option list list"

record docx_document =
  paragraphs :: "docx_paragraph list"
  tables :: "string list list list"

record externals =
  pdf_analyze :: "fcontent \<Rightarrow> py_error + string \<times> (string \<times> fcontent) list"
  docx_Document :: "fcontent \<Rightarrow> py_error + docx_document"
  image_ocr :: "fcontent \<Rightarrow> py_error + string \<times> (string \<times> fcontent) list"
  unicode_decimal :: "string \<Rightarrow> nat option"
  int_max_str_digits :: nat

text \<open>The dictionary returned by each converter.\<close>

record conv_result =
  md_content :: string
  zip_path :: string
  md_file_path :: string
  image_dir :: string

text \<open>
  \<^verbatim>\<open>
  def __init__(self, output_dir="output"):
      self.output_dir = output_dir
      FileUtils.ensure_dir(output_dir)
      self.processor = ParallelProcessor()
  \<close>
\<close>

record MinerUWebConverter =
  output_dir :: string
  processor :: ParallelProcessor

definition MinerUWebConverter_init :: "string \<Rightarrow> nat \<Rightarrow> filesystem \<Rightarrow> MinerUWebConverter \<times> filesystem" where
  "MinerUWebConverter_init out_dir cpu_count fs =
     (\<lparr>output_dir = out_dir, processor = ParallelProcessor_init None cpu_count\<rparr>,
      ensure_dir out_dir fs)"

text \<open>
  The image writer's files, and the members of the per-job archive; \<open>os.path.isfile\<close> is
  the test for a \<open>File\<close> node:
  \<^verbatim>\<open>
  zipf.write(md_file_path, os.path.basename(md_file_path))
  for img_file in os.listdir(local_image_dir):
      img_path = os.path.join(local_image_dir, img_file)
      if os.path.isfile(img_path):
          zipf.write(img_path, os.path.join("images", img_file))
  \<close>
\<close>

definition write_images :: "string \<Rightarrow> (string \<times> fcontent) list \<Rightarrow> filesystem \<Rightarrow> filesystem" where
  "write_images dir images fs = fold (\<lambda>(name, c). write_file (path_join dir name) c) images fs"

definition zip_images :: "filesystem \<Rightarrow> string \<Rightarrow> (string \<times> fcontent) list" where
  "zip_images fs local_image_dir =
     List.map_filter
       (\<lambda>img_file. case map_of fs (path_join local_image_dir img_file) of
                      Some (File c) \<Rightarrow> Some (path_join ''images'' img_file, c)
                    | _ \<Rightarrow> None)
       (listdir fs local_image_dir)"

definition zip_member :: "filesystem \<Rightarrow> string \<Rightarrow> string \<Rightarrow> (string \<times> fcontent) list" where
  "zip_member fs src arcname =
     (case map_of fs src of Some (File c) \<Rightarrow> [(arcname, c)] | _ \<Rightarrow> [])"

text \<open>
  \<^verbatim>\<open>
  def _process_pdf(self, file_path, task_id):
      name_without_extension = os.path.basename(file_path).split('.')[0]
      task_output_dir = os.path.join(self.output_dir, task_id)
      local_image_dir = os.path.join(task_output_dir, "images")
      FileUtils.ensure_dir(local_image_dir)
      ...
      pdf_bytes = reader.read(file_path)
      ds = PymuDocDataset(pdf_bytes)
      ...
      md_content = pipe_result.get_markdown(image_dir)
      md_file_path = os.path.join(task_output_dir, f"{name_without_extension}.md")
      pipe_result.dump_md(md_writer, f"{name_without_extension}.md", image_dir)
      zip_path = os.path.join(task_output_dir, f"{name_without_extension}.zip")
      with zipfile.ZipFile(zip_path, 'w') as zipf: ...
      return {"md_content": md_content, "zip_path": zip_path,
              "md_file_path": md_file_path, "image_dir": local_image_dir}
  \<close>
  The result is what the call returns or raises, and the file system afterwards.
\<close>

definition process_pdf ::
  "externals \<Rightarrow> MinerUWebConverter \<Rightarrow> string \<Rightarrow> string \<Rightarrow> filesystem
     \<Rightarrow> (py_error + conv_result) \<times> filesystem" where
  "process_pdf ext self file_path task_id fs =
     (let name_without_extension = split_first CHR ''.'' (basename file_path);
          task_output_dir = path_join (output_dir self) task_id;
          local_image_dir = path_join task_output_dir ''images'';
          fs1 = ensure_dir local_image_dir fs
      in case read_file fs1 file_path of
           Inl e \<Rightarrow> (Inl e, fs1)
         | Inr pdf_bytes \<Rightarrow>
             (case pdf_analyze ext pdf_bytes of
                Inl e \<Rightarrow> (Inl e, fs1)
              | Inr (md, images) \<Rightarrow>
                  (let fs2 = write_images local_image_dir images fs1;
                       md_file = path_join task_output_dir (name_without_extension @ ''.md'');
                       fs3 = write_file md_file (Bytes md) fs2;
                       zip_file = path_join task_output_dir (name_without_extension @ ''.zip'');
                       fs4 = write_file zip_file
                               (Archive (zip_member fs3 md_file (basename md_file)
                                         @ zip_images fs3 local_image_dir)) fs3
                   in (Inr \<lparr>md_content = md, zip_path = zip_file, md_file_path = md_file,
                            image_dir = local_image_dir\<rparr>, fs4))))"

text \<open>
  \<^verbatim>\<open>
  def _extract_and_save_docx_image(self, shape, image_path):
      try:
          with open(image_path, 'wb') as f:
              f.write(shape.blob)
          return True
      except Exception as e:
          return False
  \<close>
  The file is opened, hence created, before \<open>shape.blob\<close> is read.
\<close>

definition extract_and_save_docx_image ::
  "string option \<Rightarrow> string \<Rightarrow> filesystem \<Rightarrow> bool \<times> filesystem" where
  "extract_and_save_docx_image shape image_path fs =
     (case shape of
        Some blob \<Rightarrow> (True, write_file image_path (Bytes blob) fs)
      | None \<Rightarrow> (False, write_file image_path (Bytes []) fs))"

text \<open>
  The loop over the paragraphs of \<open>_process_docx\<close>, with its state: the list \<open>md_content\<close>,
  \<open>image_index\<close> and the file system.
  \<^verbatim>\<open>
  for para in doc.paragraphs:
      if para.text.strip():
          if para.style.name.startswith('Heading'):
              heading_level = int(para.style.name.replace('Heading', ''))
              md_content.append(f"{'#' * heading_level} {para.text}")
          else:
              md_content.append(para.text)
      for run in para.runs:
          for shape in run._element.drawing_lst:
              image_path = os.path.join(local_image_dir, f"image_{image_index}.png")
              if self._extract_and_save_docx_image(shape, image_path):
                  md_content.append(f"![... {image_index}](images/image_{image_index}.png)")
                  image_index += 1
  \<close>
  The alternative text of the image reference is two Chinese characters (six bytes) and a
  space.
\<close>

definition image_ref :: "int \<Rightarrow> string" where
  "image_ref image_index =
     ''!['' @ [CHR 0xE5, CHR 0x9B, CHR 0xBE, CHR 0xE7, CHR 0x89, CHR 0x87] @ '' ''
       @ str_int image_index @ ''](images/image_'' @ str_int image_index @ ''.png)''"

fun save_shapes ::
  "string \<Rightarrow> string option list \<Rightarrow> string list \<times> int \<times> filesystem
     \<Rightarrow> string list \<times> int \<times> filesystem" where
  "save_shapes local_image_dir [] st = st"
| "save_shapes local_image_dir (shape # shapes) (md, image_index, fs) =
     (let image_path = path_join local_image_dir (''image_'' @ str_int image_index @ ''.png'');
          (saved, fs') = extract_and_save_docx_image shape image_path fs
      in if saved
         then save_shapes local_image_dir shapes (md @ [image_ref image_index], image_index + 1, fs')
         else save_shapes local_image_dir shapes (md, image_index, fs'))"

definition paragraph_md :: "externals \<Rightarrow> docx_paragraph \<Rightarrow> py_error + string list" where
  "paragraph_md ext para =
     (if strip (para_text para) \<noteq> []
      then (if startswith (para_style_name para) ''Heading''
            then (case py_int (unicode_decimal ext) (int_max_str_digits ext)
                         (py_replace ''Heading'' [] (para_style_name para)) of
                    Inl e \<Rightarrow> Inl e
                  | Inr heading_level \<Rightarrow>
                      Inr [replicate (nat heading_level) CHR ''#'' @ '' '' @ para_text para])
            else Inr [para_text para])
      else Inr [])"

fun process_paragraphs ::
  "externals \<Rightarrow> string \<Rightarrow> docx_paragraph list \<Rightarrow> string list \<times> int \<times> filesystem
     \<Rightarrow> py_error option \<times> string list \<times> int \<times> filesystem" where
  "process_paragraphs ext local_image_dir [] st = (None, st)"
| "process_paragraphs ext local_image_dir (para # paras) (md, image_index, fs) =
     (case paragraph_md ext para of
        Inl e \<Rightarrow> (Some e, (md, image_index, fs))
      | Inr lines \<Rightarrow>
          process_paragraphs ext local_image_dir paras
            (fold (save_shapes local_image_dir) (para_runs para) (md @ lines, image_index, fs)))"

text \<open>
  The loop over the tables:
  \<^verbatim>\<open>
  for table in doc.tables:
      table_md = []
      header_row = table.rows[0]
      header_cells = [cell.text.strip() for cell in header_row.cells]
      table_md.append('| ' + ' | '.join(header_cells) + ' |')
      table_md.append('| ' + ' | '.join(['---'] * len(header_cells)) + ' |')
      for row in table.rows[1:]:
          cells = [cell.text.strip() for cell in row.cells]
          table_md.append('| ' + ' | '.join(cells) + ' |')
      md_content.append('\n'.join(table_md))
  full_md_content = '\n\n'.join(md_content)
  \<close>
  \<open>table.rows[0]\<close> raises \<^verbatim>\<open>IndexError\<close> on a table without rows.
\<close>

definition table_row :: "string list \<Rightarrow> string" where
  "table_row cells = ''| '' @ py_join '' | '' cells @ '' |''"

definition table_md :: "string list list \<Rightarrow> py_error + string" where
  "table_md rows =
     (case rows of
        [] \<Rightarrow> Inl IndexError
      | header_row # data_rows \<Rightarrow>
          (let header_cells = map strip header_row
           in Inr (py_join [CHR 0x0A]
                     ([table_row header_cells,
                       table_row (replicate (length header_cells) ''---'')]
                      @ map (\<lambda>row. table_row (map strip row)) data_rows))))"

fun process_tables :: "string list list list \<Rightarrow> py_error + string list" where
  "process_tables [] = Inr []"
| "process_tables (t # ts) =
     (case table_md t of
        Inl e \<Rightarrow> Inl e
      | Inr block \<Rightarrow> (case process_tables ts of Inl e \<Rightarrow> Inl e | Inr blocks \<Rightarrow> Inr (block # blocks)))"

definition docx_markdown ::
  "externals \<Rightarrow> string \<Rightarrow> docx_document \<Rightarrow> filesystem \<Rightarrow> (py_error + string) \<times> filesystem" where
  "docx_markdown ext local_image_dir doc fs =
     (case process_paragraphs ext local_image_dir (paragraphs doc) ([], 1, fs) of
        (Some e, (md, image_index, fs')) \<Rightarrow> (Inl e, fs')
      | (None, (md, image_index, fs')) \<Rightarrow>
          (case process_tables (tables doc) of
             Inl e \<Rightarrow> (Inl e, fs')
           | Inr blocks \<Rightarrow> (Inr (py_join [CHR 0x0A, CHR 0x0A] (md @ blocks)), fs')))"

text \<open>
  \<open>_process_docx\<close>: the paths and the directory as in \<open>_process_pdf\<close>, then
  \<open>docx.Document(file_path)\<close>, the paragraphs, the tables, the Markdown file and the archive.
\<close>

definition process_docx ::
  "externals \<Rightarrow> MinerUWebConverter \<Rightarrow> string \<Rightarrow> string \<Rightarrow> filesystem
     \<Rightarrow> (py_error + conv_result) \<times> filesystem" where
  "process_docx ext self file_path task_id fs =
     (let name_without_extension = split_first CHR ''.'' (basename file_path);
          task_output_dir = path_join (output_dir self) task_id;
          local_image_dir = path_join task_output_dir ''images'';
          fs1 = ensure_dir local_image_dir fs
      in case read_file fs1 file_path of
           Inl e \<Rightarrow> (Inl e, fs1)
         | Inr docx_bytes \<Rightarrow>
             (case docx_Document ext docx_bytes of
                Inl e \<Rightarrow> (Inl e, fs1)
              | Inr doc \<Rightarrow>
                  (case docx_markdown ext local_image_dir doc fs1 of
                     (Inl e, fs2) \<Rightarrow> (Inl e, fs2)
                   | (Inr full_md_content, fs2) \<Rightarrow>
                       (let md_file = path_join task_output_dir (name_without_extension @ ''.md'');
                            fs3 = write_file md_file (Bytes full_md_content) fs2;
                            zip_file = path_join task_output_dir (name_without_extension @ ''.zip'');
                            fs4 = write_file zip_file
                                    (Archive (zip_member fs3 md_file (basename md_file)
                                              @ zip_images fs3 local_image_dir)) fs3
                        in (Inr \<lparr>md_content = full_md_content, zip_path = zip_file,
                                 md_file_path = md_file, image_dir = local_image_dir\<rparr>, fs4)))))"

text \<open>
  \<^verbatim>\<open>
  def _process_image(self, file_path, task_id):
      ...
      output_image_path = os.path.join(local_image_dir, os.path.basename(file_path))
      shutil.copy(file_path, output_image_path)
      img = Image.open(file_path)
      with open(file_path, 'rb') as f:
          img_data = f.read()
      ...
      md_content = pipe_result.get_markdown(image_dir)
      if not md_content.strip():
          md_content = f"![{name_without_extension}](images/{os.path.basename(file_path)})"
      ...
      with zipfile.ZipFile(zip_path, 'w') as zipf:
          zipf.write(md_file_path, os.path.basename(md_file_path))
          zipf.write(output_image_path, os.path.join("images", os.path.basename(file_path)))
  \<close>
\<close>

definition process_image ::
  "externals \<Rightarrow> MinerUWebConverter \<Rightarrow> string \<Rightarrow> string \<Rightarrow> filesystem
     \<Rightarrow> (py_error + conv_result) \<times> filesystem" where
  "process_image ext self file_path task_id fs =
     (let name_without_extension = split_first CHR ''.'' (basename file_path);
          task_output_dir = path_join (output_dir self) task_id;
          local_image_dir = path_join task_output_dir ''images'';
          fs1 = ensure_dir local_image_dir fs;
          output_image_path = path_join local_image_dir (basename file_path)
      in case read_file fs1 file_path of
           Inl e \<Rightarrow> (Inl e, fs1)
         | Inr img_data \<Rightarrow>
             (let fs2 = write_file output_image_path img_data fs1
              in case image_ocr ext img_data of
                   Inl e \<Rightarrow> (Inl e, fs2)
                 | Inr (ocr_md, images) \<Rightarrow>
                     (let fs3 = write_images local_image_dir images fs2;
                          md = (if strip ocr_md = []
                                then ''!['' @ name_without_extension @ ''](images/''
                                       @ basename file_path @ '')''
                                else ocr_md);
                          md_file = path_join task_output_dir (name_without_extension @ ''.md'');
                          fs4 = write_file md_file (Bytes md) fs3;
                          zip_file = path_join task_output_dir (name_without_extension @ ''.zip'');
                          fs5 = write_file zip_file
                                  (Archive (zip_member fs4 md_file (basename md_file)
                                            @ zip_member fs4 output_image_path
                                                (path_join ''images'' (basename file_path)))) fs4
                      in (Inr \<lparr>md_content = md, zip_path = zip_file, md_file_path = md_file,
                               image_dir = local_image_dir\<rparr>, fs5))))"

section \<open>app.py: process_file\<close>

text \<open>
  The world of a job: the file system and the clock. \<open>time.time()\<close> returns the next reading
  of the clock; \<open>clock w n\<close> is the \<open>n\<close>-th reading, in seconds.
\<close>

record world =
  files :: filesystem
  clock :: "nat \<Rightarrow> real"
  ticks :: nat

definition time_time :: "world \<Rightarrow> real \<times> world" where
  "time_time w = (clock w (ticks w), w\<lparr>ticks := Suc (ticks w)\<rparr>)"

text \<open>
  \<^verbatim>\<open>
  def process_file(self, file_path):
      task_id = f"task_{int(time.time())}"
      file_ext = os.path.splitext(file_path)[1].lower()
      if file_ext == '.pdf':
          result = self._process_pdf(file_path, task_id)
      elif file_ext in ['.doc', '.docx']:
          result = self._process_docx(file_path, task_id)
      elif file_ext in ['.jpg', '.jpeg', '.png', '.gif']:
          result = self._process_image(file_path, task_id)
      else:
          return "<unsupported file type>", None
      return result["md_content"], result["zip_path"]
  \<close>
  The message of the last branch is a Chinese text of eight characters, \<open>unsupported_msg\<close>
  below (24 bytes). The returned pair is \<open>(text, Some path)\<close> or \<open>(text, None)\<close>.
\<close>

definition unsupported_msg :: string where
  "unsupported_msg =
     [CHR 0xE4, CHR 0xB8, CHR 0x8D, CHR 0xE6, CHR 0x94, CHR 0xAF, CHR 0xE6, CHR 0x8C, CHR 0x81,
      CHR 0xE7, CHR 0x9A, CHR 0x84, CHR 0xE6, CHR 0x96, CHR 0x87, CHR 0xE4, CHR 0xBB, CHR 0xB6,
      CHR 0xE7, CHR 0xB1, CHR 0xBB, CHR 0xE5, CHR 0x9E, CHR 0x8B]"

definition converted ::
  "(py_error + conv_result) \<times> filesystem \<Rightarrow> world
     \<Rightarrow> (py_error + string \<times> string option) \<times> world" where
  "converted res w =
     (case res of
        (Inl e, fs') \<Rightarrow> (Inl e, w\<lparr>files := fs'\<rparr>)
      | (Inr result, fs') \<Rightarrow> (Inr (md_content result, Some (zip_path result)), w\<lparr>files := fs'\<rparr>))"

definition process_file ::
  "externals \<Rightarrow> MinerUWebConverter \<Rightarrow> string \<Rightarrow> world
     \<Rightarrow> (py_error + string \<times> string option) \<times> world" where
  "process_file ext self file_path w =
     (let (now, w1) = time_time w;
          task_id = ''task_'' @ str_int (int_of_float now);
          file_ext = lower (snd (splitext file_path))
      in if file_ext = ''.pdf''
         then converted (process_pdf ext self file_path task_id (files w1)) w1
         else if file_ext \<in> set [''.doc'', ''.docx'']
         then converted (process_docx ext self file_path task_id (files w1)) w1
         else if file_ext \<in> set [''.jpg'', ''.jpeg'', ''.png'', ''.gif'']
         then converted (process_image ext self file_path task_id (files w1)) w1
         else (Inr (unsupported_msg, None), w1))"

section \<open>app.py: batch_process_files\<close>

text \<open>
  The aggregation loop:
  \<^verbatim>\<open>
  with zipfile.ZipFile(batch_zip_path, 'w') as batch_zip:
      for i, result in enumerate(results):
          if isinstance(result, tuple) and len(result) == 2 and result[1]:
              md_content, zip_path = result
              if os.path.exists(zip_path):
                  with tempfile.TemporaryDirectory() as temp_dir:
                      with zipfile.ZipFile(zip_path, 'r') as file_zip:
                          file_zip.extractall(temp_dir)
                      base_name = os.path.basename(zip_path).split('.')[0]
                      for root, _, files in os.walk(temp_dir):
                          for file in files:
                              file_path = os.path.join(root, file)
                              rel_path = os.path.relpath(file_path, temp_dir)
                              batch_zip.write(file_path, os.path.join(base_name, rel_path))
  \<close>
  \<open>extract_members\<close> is \<open>extractall\<close> into the fresh scratch directory followed by the walk:
  the extracted files with their paths relative to the scratch directory, a later member
  having overwritten an earlier one of the same name. Member names are taken to be plain
  relative paths, as the converters write them (\<open>name.md\<close>, \<open>images/file\<close>), and the walk is
  taken in the order of the archive. The scratch directory is outside the modelled file
  system and is gone after each iteration. \<open>result[1]\<close> is true for a path that is not
  empty. Opening something that is not an archive raises, and ends the loop with the
  members written so far.
\<close>

definition extract_members :: "(string \<times> fcontent) list \<Rightarrow> (string \<times> fcontent) list" where
  "extract_members members = fold (\<lambda>(name, c). put name c) members []"

definition result_archive :: "string \<times> string option \<Rightarrow> string option" where
  "result_archive result =
     (case snd result of
        None \<Rightarrow> None
      | Some zp \<Rightarrow> if zp \<noteq> [] then Some zp else None)"

fun aggregate ::
  "filesystem \<Rightarrow> (string \<times> string option) list \<Rightarrow> (string \<times> fcontent) list
     \<Rightarrow> py_error option \<times> (string \<times> fcontent) list" where
  "aggregate fs [] batch_zip = (None, batch_zip)"
| "aggregate fs (result # rest) batch_zip =
     (case result_archive result of
        None \<Rightarrow> aggregate fs rest batch_zip
      | Some zp \<Rightarrow>
          if exists_path fs zp
          then (case read_file fs zp of
                  Inl e \<Rightarrow> (Some e, batch_zip)
                | Inr (Bytes b) \<Rightarrow> (Some (BadZipFile zp), batch_zip)
                | Inr (Archive members) \<Rightarrow>
                    (let base_name = split_first CHR ''.'' (basename zp)
                     in aggregate fs rest
                          (batch_zip @ map (\<lambda>(rel_path, c). (path_join base_name rel_path, c))
                                         (extract_members members))))
          else aggregate fs rest batch_zip)"

text \<open>
  \<^verbatim>\<open>
  def batch_process_files(self, file_paths):
      task_id = f"batch_{int(time.time())}"
      task_output_dir = os.path.join(self.output_dir, task_id)
      FileUtils.ensure_dir(task_output_dir)
      progress = ProgressTracker(len(file_paths), "<batch description>")
      def process_callback(file_path, result):
          progress.update()
          logger.info(f"... {progress.get_progress()['percentage']:.2f}%")
      results = self.processor.process_items(file_paths, self.process_file, process_callback)
      batch_zip_path = os.path.join(task_output_dir, "batch_results.zip")
      with zipfile.ZipFile(batch_zip_path, 'w') as batch_zip:
          ...
      return batch_zip_path
  \<close>
  The world of the pool is the world of the jobs together with the tracker that the callback
  has captured. \<open>batch_start\<close> is the part before \<open>process_items\<close>, \<open>batch_jobs\<close> the call of
  \<open>process_items\<close>, whose pool state the claims about the jobs refer to. The batch archive is
  created empty when it is opened and written when the \<^verbatim>\<open>with\<close> block is left, also when the
  loop raises.
\<close>

definition batch_description :: string where
  "batch_description =
     [CHR 0xE6, CHR 0x89, CHR 0xB9, CHR 0xE9, CHR 0x87, CHR 0x8F, CHR 0xE5, CHR 0xA4, CHR 0x84,
      CHR 0xE7, CHR 0x90, CHR 0x86, CHR 0xE6, CHR 0x96, CHR 0x87, CHR 0xE4, CHR 0xBB, CHR 0xB6]"

definition batch_job ::
  "externals \<Rightarrow> MinerUWebConverter \<Rightarrow> string \<Rightarrow> world \<times> ProgressTracker
     \<Rightarrow> (py_error + string \<times> string option) \<times> world \<times> ProgressTracker" where
  "batch_job ext self file_path st =
     (let (out, w') = process_file ext self file_path (fst st) in (out, (w', snd st)))"

definition process_callback ::
  "string \<Rightarrow> string \<times> string option \<Rightarrow> world \<times> ProgressTracker
     \<Rightarrow> py_error option \<times> world \<times> ProgressTracker" where
  "process_callback file_path result st =
     (case update (snd st) 1 of
        (Inl e, progress') \<Rightarrow> (Some e, (fst st, progress'))
      | (Inr s, progress') \<Rightarrow>
          (case get_progress progress' of
             (Inl e, progress'') \<Rightarrow> (Some e, (fst st, progress''))
           | (Inr s', progress'') \<Rightarrow> (None, (fst st, progress''))))"

definition batch_start ::
  "MinerUWebConverter \<Rightarrow> string list \<Rightarrow> world \<Rightarrow> string \<times> world \<times> ProgressTracker" where
  "batch_start self file_paths w =
     (let (now, w1) = time_time w;
          task_id = ''batch_'' @ str_int (int_of_float now);
          task_output_dir = path_join (output_dir self) task_id;
          w2 = w1\<lparr>files := ensure_dir task_output_dir (files w1)\<rparr>;
          progress = ProgressTracker_init (int (length file_paths)) batch_description
      in (task_output_dir, (w2, progress)))"

definition batch_jobs ::
  "externals \<Rightarrow> MinerUWebConverter \<Rightarrow> string list \<Rightarrow> nat list \<Rightarrow> world
     \<Rightarrow> py_error + (world \<times> ProgressTracker, string, string \<times> string option) pool" where
  "batch_jobs ext self file_paths completion w =
     process_items (processor self) file_paths (batch_job ext self) (Some process_callback)
       completion (snd (batch_start self file_paths w))"

definition batch_process_files ::
  "externals \<Rightarrow> MinerUWebConverter \<Rightarrow> string list \<Rightarrow> nat list \<Rightarrow> world
     \<Rightarrow> (py_error + string) \<times> world" where
  "batch_process_files ext self file_paths completion w =
     (let task_output_dir = fst (batch_start self file_paths w)
      in case batch_jobs ext self file_paths completion w of
           Inl e \<Rightarrow> (Inl e, fst (snd (batch_start self file_paths w)))
         | Inr P \<Rightarrow>
             (let w3 = fst (world P);
                  batch_zip_path = path_join task_output_dir ''batch_results.zip'';
                  fs_open = write_file batch_zip_path (Bytes []) (files w3);
                  (err, batch_zip) = aggregate fs_open (results P) [];
                  w4 = w3\<lparr>files := write_file batch_zip_path (Archive batch_zip) fs_open\<rparr>
              in case err of
                   Some e \<Rightarrow> (Inl e, w4)
                 | None \<Rightarrow> (Inr batch_zip_path, w4)))"

section \<open>Notions used in the statements\<close>

text \<open>
  The extensions that \<open>process_file\<close> dispatches on, the base name that the converters give
  to their files (\<open>name_without_extension\<close>), the path of the per-job archive, the members
  that one result adds to the batch archive, and the lines of a text.
\<close>

definition supported_extensions :: "string list" where
  "supported_extensions = [''.pdf'', ''.doc'', ''.docx'', ''.jpg'', ''.jpeg'', ''.png'', ''.gif'']"

definition stem :: "string \<Rightarrow> string" where
  "stem file_path = split_first CHR ''.'' (basename file_path)"

definition job_zip_path :: "MinerUWebConverter \<Rightarrow> string \<Rightarrow> string \<Rightarrow> string" where
  "job_zip_path self task_id file_path =
     path_join (path_join (output_dir self) task_id) (stem file_path @ ''.zip'')"

definition result_entries :: "filesystem \<Rightarrow> string \<times> string option \<Rightarrow> (string \<times> fcontent) list" where
  "result_entries fs result =
     (case result_archive result of
        None \<Rightarrow> []
      | Some zp \<Rightarrow>
          (case map_of fs zp of
             Some (File (Archive members)) \<Rightarrow>
               map (\<lambda>(rel_path, c). (path_join (split_first CHR ''.'' (basename zp)) rel_path, c))
                 (extract_members members)
           | _ \<Rightarrow> []))"

fun split_lines :: "string \<Rightarrow> string \<Rightarrow> string list" where
  "split_lines cur [] = [cur]"
| "split_lines cur (c # cs) =
     (if c = CHR 0x0A then cur # split_lines [] cs else split_lines (cur @ [c]) cs)"

definition lines_of :: "string \<Rightarrow> string list" where
  "lines_of s = split_lines [] s"

text \<open>
  Inputs for the examples: a document with one heading paragraph \<open>Intro\<close>, with the given
  runs, and one table of two rows and two columns; collaborators that know three file
  contents, a variant whose OCR raises and a variant that opens the heading document, all
  with the fullwidth digits U+FF10 to U+FF19 as the decimal digits beyond ASCII and the
  default limit of 4300 digits (the style names of the examples are ASCII and short, so
  neither is consulted); a converter and a world with some uploaded files, whose clock
  starts at \<open>start\<close> and advances by \<open>step\<close> with each reading.
\<close>

definition intro_document ::
  "string \<Rightarrow> string option list list \<Rightarrow> string \<Rightarrow> string \<Rightarrow> string \<Rightarrow> string \<Rightarrow> docx_document" where
  "intro_document style runs a b c d =
     \<lparr>paragraphs = [\<lparr>para_text = ''Intro'', para_style_name = style, para_runs = runs\<rparr>],
      tables = [ [ [a, b], [c, d] ] ]\<rparr>"

definition example_document :: "fcontent \<Rightarrow> py_error + docx_document" where
  "example_document c =
     (if c = Bytes ''A''
      then Inr \<lparr>paragraphs = [\<lparr>para_text = ''Alpha'', para_style_name = ''Normal'',
                               para_runs = [ [Some ''PNG-A''] ]\<rparr>], tables = []\<rparr>
      else if c = Bytes ''B''
      then Inr \<lparr>paragraphs = [\<lparr>para_text = ''Beta'', para_style_name = ''Heading 2'',
                               para_runs = [ [] ]\<rparr>], tables = []\<rparr>
      else Inl (LibraryError ''PackageNotFoundError''))"

definition example_pdf :: "fcontent \<Rightarrow> py_error + string \<times> (string \<times> fcontent) list" where
  "example_pdf c =
     (if c = Bytes ''P'' then Inr (''pdf text'', [(''fig.jpg'', Bytes ''JPG'')])
      else Inl (LibraryError ''not a PDF''))"

definition empty_ocr :: "fcontent \<Rightarrow> py_error + string \<times> (string \<times> fcontent) list" where
  "empty_ocr c = Inr ([], [])"

definition failing_ocr :: "fcontent \<Rightarrow> py_error + string \<times> (string \<times> fcontent) list" where
  "failing_ocr c = Inl (LibraryError ''OCR failed'')"

definition heading_document :: "fcontent \<Rightarrow> py_error + docx_document" where
  "heading_document c =
     Inr (intro_document ''Heading 1'' [ [] ] [CHR 0xC2, CHR 0xA0, CHR ''N'', CHR ''a'', CHR ''m'', CHR ''e'', CHR '' '']
            ''Qty'' ''bolt'' [CHR '' '', CHR ''4'', CHR 0xE3, CHR 0x80, CHR 0x80])"

definition fullwidth_decimal :: "string \<Rightarrow> nat option" where
  "fullwidth_decimal ch =
     (case ch of
        [b1, b2, b3] \<Rightarrow>
          if b1 = CHR 0xEF \<and> b2 = CHR 0xBC \<and> 0x90 \<le> (of_char b3 :: nat) \<and> (of_char b3 :: nat) \<le> 0x99
          then Some ((of_char b3 :: nat) - 0x90) else None
      | _ \<Rightarrow> None)"

definition example_externals :: externals where
  "example_externals =
     \<lparr>pdf_analyze = example_pdf, docx_Document = example_document, image_ocr = empty_ocr,
      unicode_decimal = fullwidth_decimal, int_max_str_digits = 4300\<rparr>"

definition failing_ocr_externals :: externals where
  "failing_ocr_externals =
     \<lparr>pdf_analyze = example_pdf, docx_Document = example_document, image_ocr = failing_ocr,
      unicode_decimal = fullwidth_decimal, int_max_str_digits = 4300\<rparr>"

definition heading_externals :: externals where
  "heading_externals =
     \<lparr>pdf_analyze = example_pdf, docx_Document = heading_document, image_ocr = empty_ocr,
      unicode_decimal = fullwidth_decimal, int_max_str_digits = 4300\<rparr>"

definition example_converter :: MinerUWebConverter where
  "example_converter = \<lparr>output_dir = ''output'', processor = \<lparr>max_workers = 8\<rparr>\<rparr>"

definition example_world :: "real \<Rightarrow> real \<Rightarrow> world" where
  "example_world start step =
     \<lparr>files = [(''output'', Dir), (''a.pdf'', File (Bytes ''P'')), (''b.docx'', File (Bytes ''B'')),
               (''a.docx'', File (Bytes ''A'')), (''c.xyz'', File (Bytes ''X'')),
               (''pic.png'', File (Bytes ''PNG'')),
               (''report.pdf'', File (Bytes ''P'')), (''report.docx'', File (Bytes ''B''))],
      clock = (\<lambda>n. start + real n * step), ticks = 0\<rparr>"

section \<open>Properties of ProgressTracker\<close>

lemma progress_info_ok:
  "0 < total tr \<Longrightarrow> 0 \<le> current tr \<Longrightarrow> snapshot_ok (progress_info tr)"
  by (simp add: progress_info_def py_truediv_def snapshot_ok_def Let_def)

lemma do_call_ok:
  "0 < total tr \<Longrightarrow> 0 \<le> current tr \<Longrightarrow> snapshot_ok (fst (do_call tr c))"
  by (cases c) (simp_all add: update_def get_progress_def progress_info_ok Let_def)

lemma do_call_total: "total (snd (do_call tr c)) = total tr"
  by (cases c) (simp_all add: update_def get_progress_def Let_def)

lemma do_call_current:
  "current (snd (do_call tr c)) = current tr + (if is_update c then 1 else 0)"
  by (cases c) (simp_all add: update_def get_progress_def Let_def)

lemma run_calls_inv:
  "0 < total tr \<Longrightarrow> 0 \<le> current tr \<Longrightarrow>
     list_all snapshot_ok (fst (run_calls tr cs))
   \<and> total (snd (run_calls tr cs)) = total tr
   \<and> current (snd (run_calls tr cs)) = current tr + int (length (filter is_update cs))"
proof (induction cs arbitrary: tr)
  case Nil
  then show ?case by simp
next
  case (Cons c cs)
  let ?tr' = "snd (do_call tr c)"
  have t: "0 < total ?tr'"
    using Cons.prems by (simp add: do_call_total)
  have c: "0 \<le> current ?tr'"
    using Cons.prems by (simp add: do_call_current)
  from Cons.IH[OF t c] do_call_ok[OF Cons.prems, of c] show ?case
    by (simp add: case_prod_unfold Let_def do_call_total do_call_current)
qed

text \<open>
  Claim C2. For a tracker constructed with \<open>total > 0\<close> and any sequence of \<open>update()\<close>
  (increment 1) and \<open>get_progress()\<close> calls from any callers, every call returns a snapshot
  (none raises) whose \<open>progress\<close> is \<open>min (current / total) 1\<close> and lies in \<open>[0, 1]\<close>, also
  when more updates arrive than \<open>total\<close>; afterwards \<open>current\<close> is the number of
  \<open>update()\<close> calls.
\<close>

theorem progress_fraction_bounded:
  assumes "0 < tot"
  shows "list_all snapshot_ok (fst (run_calls (ProgressTracker_init tot d) cs))
       \<and> current (snd (run_calls (ProgressTracker_init tot d) cs)) = int (length (filter is_update cs))"
  using run_calls_inv[of "ProgressTracker_init tot d" cs] assms
  by (simp add: ProgressTracker_init_def)

text \<open>
  Two callers, three updates on a tracker of total 2: the fractions are 1/2, 1/2, 1, 1 (the
  third update is clamped), and the counter ends at 3.
\<close>

theorem progress_fraction_bounded_witness:
  "(0::int) < 2
   \<and> map (map_sum id snap_progress) (fst (run_calls (ProgressTracker_init 2 ''batch'') [Update (1::nat), GetProgress 2, Update 2, Update 1]))
     = [Inr (1/2), Inr (1/2), Inr 1, Inr 1]
   \<and> list_all snapshot_ok (fst (run_calls (ProgressTracker_init 2 ''batch'') [Update (1::nat), GetProgress 2, Update 2, Update 1]))
   \<and> current (snd (run_calls (ProgressTracker_init 2 ''batch'') [Update (1::nat), GetProgress 2, Update 2, Update 1])) = 3"
  using progress_fraction_bounded[of 2 "''batch''" "[Update (1::nat), GetProgress 2, Update 2, Update 1]"]
  by (simp add: ProgressTracker_init_def update_def get_progress_def progress_info_def py_truediv_def Let_def)

text \<open>
  Claim C6 says that the constructor rejects \<open>total = 0\<close>, so that no division by zero can
  follow. The constructor stores \<open>total\<close> unchecked: a tracker with total 0 is built, and its
  first \<open>update()\<close> raises \<^verbatim>\<open>ZeroDivisionError\<close>, after having incremented the counter.
\<close>

theorem ProgressTracker_zero_total_counterexample:
  "total (ProgressTracker_init 0 ''batch'') = 0
   \<and> update (ProgressTracker_init 0 ''batch'') 1
       = (Inl ZeroDivisionError, \<lparr>total = 0, current = 1, description = ''batch''\<rparr>)"
  by (simp add: ProgressTracker_init_def update_def progress_info_def py_truediv_def)

text \<open>
  Claim C6, amended. The constructor accepts every \<open>total\<close> and stores it with \<open>current = 0\<close>;
  the division by zero is met later: \<open>update\<close> and \<open>get_progress\<close> raise
  \<^verbatim>\<open>ZeroDivisionError\<close> exactly when the tracker was built with \<open>total = 0\<close>, and \<open>update\<close>
  has added its increment to the counter in either case.
\<close>

theorem ProgressTracker_init_unchecked:
  "total (ProgressTracker_init tot d) = tot
   \<and> current (ProgressTracker_init tot d) = 0
   \<and> (fst (update (ProgressTracker_init tot d) inc) = Inl ZeroDivisionError) = (tot = 0)
   \<and> (fst (get_progress (ProgressTracker_init tot d)) = Inl ZeroDivisionError) = (tot = 0)
   \<and> current (snd (update (ProgressTracker_init tot d) inc)) = inc"
  by (simp add: ProgressTracker_init_def update_def get_progress_def progress_info_def py_truediv_def Let_def)

section \<open>Properties of process_items\<close>

lemma map_filter_append:
  "List.map_filter f (xs @ ys) = List.map_filter f xs @ List.map_filter f ys"
  by (simp add: List.map_filter_def)

lemma map_filter_cong_set:
  "(\<And>x. x \<in> set xs \<Longrightarrow> f x = g x) \<Longrightarrow> List.map_filter f xs = List.map_filter g xs"
  by (induction xs) (auto split: option.splits)

lemma calls_of_append: "calls_of (es @ fs) = calls_of es @ calls_of fs"
  by (simp add: calls_of_def map_filter_append)

lemma completions_of_append: "completions_of (es @ fs) = completions_of es @ completions_of fs"
  by (simp add: completions_of_def map_filter_append)

lemma calls_of_simps:
  "calls_of [] = []"
  "calls_of (Finished k out # es) = calls_of es"
  "calls_of (Called k x r # es) = (k, x, r) # calls_of es"
  "calls_of (Logged e # es) = calls_of es"
  by (simp_all add: calls_of_def)

lemma completions_of_simps:
  "completions_of [] = []"
  "completions_of (Finished k out # es) = (k, out) # completions_of es"
  "completions_of (Called k x r # es) = completions_of es"
  "completions_of (Logged e # es) = completions_of es"
  by (simp_all add: completions_of_def)

lemma run_job_fields:
  "pending (snd (run_job f items j p)) = pending p"
  "results (snd (run_job f items j p)) = results p"
  "finished (snd (run_job f items j p)) = (finished p)(j \<mapsto> fst (run_job f items j p))"
  "trace (snd (run_job f items j p)) = trace p @ [Finished j (fst (run_job f items j p))]"
  by (simp_all add: run_job_def case_prod_unfold Let_def)

lemma run_job_trace_ok:
  assumes "trace_ok p" "finished p j = None"
  shows "trace_ok (snd (run_job f items j p))"
proof -
  from assms have nin: "j \<notin> fst ` set (completions_of (trace p))"
    by (metis trace_ok_def map_of_eq_None_iff)
  have "map_of (completions_of (trace p) @ [(j, out)]) = (finished p)(j \<mapsto> out)" for out
    using assms nin by (auto simp: trace_ok_def map_add_def fun_eq_iff split: option.splits)
  then show ?thesis
    using assms nin
    by (simp add: trace_ok_def run_job_fields completions_of_append completions_of_simps)
qed

lemma run_jobs_Nil: "run_jobs f items [] p = p"
  by (simp add: run_jobs_def)

lemma run_jobs_Cons: "run_jobs f items (j # js) p = run_jobs f items js (snd (run_job f items j p))"
  by (simp add: run_jobs_def)

lemma run_jobs_fields:
  "pending (run_jobs f items js p) = pending p"
  "results (run_jobs f items js p) = results p"
  "calls_of (trace (run_jobs f items js p)) = calls_of (trace p)"
  "dom (finished (run_jobs f items js p)) = dom (finished p) \<union> set js"
  by (induction js arbitrary: p;
      simp add: run_jobs_Nil run_jobs_Cons run_job_fields calls_of_append calls_of_simps; blast?)+

lemma run_jobs_finished_other:
  "j \<notin> set js \<Longrightarrow> finished (run_jobs f items js p) j = finished p j"
  by (induction js arbitrary: p) (simp_all add: run_jobs_Nil run_jobs_Cons run_job_fields)

lemma run_jobs_trace_ok:
  "trace_ok p \<Longrightarrow> distinct js \<Longrightarrow> set js \<inter> dom (finished p) = {}
     \<Longrightarrow> trace_ok (run_jobs f items js p)"
proof (induction js arbitrary: p)
  case Nil
  then show ?case by (simp add: run_jobs_Nil)
next
  case (Cons j js)
  from Cons.prems have none: "finished p j = None" by auto
  have ok: "trace_ok (snd (run_job f items j p))"
    using Cons.prems(1) none by (rule run_job_trace_ok)
  have "set js \<inter> dom (finished (snd (run_job f items j p))) = {}"
    using Cons.prems by (auto simp: run_job_fields)
  with Cons.IH[OF ok] Cons.prems(2) show ?case
    by (simp add: run_jobs_Cons)
qed

lemma run_jobs_trace:
  "\<exists>ext. trace (run_jobs f items js p) = trace p @ ext \<and> completions_only ext"
proof (induction js arbitrary: p)
  case Nil
  show ?case by (simp add: run_jobs_Nil completions_only_def)
next
  case (Cons j js)
  from Cons.IH[of "snd (run_job f items j p)"] obtain ext where
    "trace (run_jobs f items js (snd (run_job f items j p)))
       = trace (snd (run_job f items j p)) @ ext" "completions_only ext"
    by blast
  then have "trace (run_jobs f items (j # js) p)
       = trace p @ (Finished j (fst (run_job f items j p)) # ext)
     \<and> completions_only (Finished j (fst (run_job f items j p)) # ext)"
    by (simp add: run_jobs_Cons run_job_fields completions_only_def)
  then show ?case by blast
qed

lemma called_late_append:
  assumes "called_late es"
    and "\<And>k x r. Called k x r \<in> set fs \<Longrightarrow> Finished k (Inr r) \<in> set es"
  shows "called_late (es @ fs)"
  unfolding called_late_def
proof (intro allI impI)
  fix i k x r
  assume i: "i < length (es @ fs)" and c: "(es @ fs) ! i = Called k x r"
  show "\<exists>j<i. (es @ fs) ! j = Finished k (Inr r)"
  proof (cases "i < length es")
    case True
    with c have "es ! i = Called k x r" by (simp add: nth_append)
    with assms(1) True obtain j where j: "j < i" "es ! j = Finished k (Inr r)"
      unfolding called_late_def by blast
    from j True have "(es @ fs) ! j = Finished k (Inr r)" by (simp add: nth_append)
    with j(1) show ?thesis by blast
  next
    case False
    then have "(es @ fs) ! i = fs ! (i - length es)" by (simp add: nth_append)
    moreover from False i have "i - length es < length fs" by simp
    ultimately have "Called k x r \<in> set fs" using c by (metis nth_mem)
    from assms(2)[OF this] obtain j where j: "j < length es" "es ! j = Finished k (Inr r)"
      by (auto simp: in_set_conv_nth)
    then have "(es @ fs) ! j = Finished k (Inr r)" by (simp add: nth_append)
    moreover from j(1) False have "j < i" by simp
    ultimately show ?thesis by blast
  qed
qed

lemma completions_only_no_calls: "completions_only ext \<Longrightarrow> Called k x r \<notin> set ext"
  by (auto simp: completions_only_def list_all_iff)

lemma completions_only_calls_of: "completions_only ext \<Longrightarrow> calls_of ext = []"
  by (induction ext) (auto simp: completions_only_def calls_of_simps split: event.splits)

lemma future_result_props:
  assumes wf: "pool_wf p"
  shows "finished (snd (future_result f items k p)) k = Some (fst (future_result f items k p))
    \<and> pool_wf (snd (future_result f items k p))
    \<and> (\<forall>j. finished p j \<noteq> None \<longrightarrow> finished (snd (future_result f items k p)) j = finished p j)
    \<and> results (snd (future_result f items k p)) = results p
    \<and> (\<exists>ext. trace (snd (future_result f items k p)) = trace p @ ext \<and> completions_only ext)"
proof -
  define q where "q = snd (future_result f items k p)"
  have "finished q k = Some (fst (future_result f items k p)) \<and> pool_wf q \<and>
      (\<forall>j. finished p j \<noteq> None \<longrightarrow> finished q j = finished p j) \<and> results q = results p \<and>
      (\<exists>ext. trace q = trace p @ ext \<and> completions_only ext)"
  proof (cases "finished p k")
    case (Some out)
    then show ?thesis
      using wf by (simp add: q_def future_result_def completions_only_def)
  next
    case None
    define earlier where
      "earlier = (if k \<in> set (pending p) then takeWhile (\<lambda>j. j \<noteq> k) (pending p) else [])"
    define p0 where
      "p0 = p\<lparr>pending := filter (\<lambda>j. j \<noteq> k \<and> j \<notin> set earlier) (pending p)\<rparr>"
    define p1 where "p1 = run_jobs f items earlier p0"
    have fr: "future_result f items k p = run_job f items k p1"
      using None by (simp add: future_result_def earlier_def p0_def p1_def Let_def)
    have sub: "set earlier \<subseteq> set (pending p)"
      by (auto simp: earlier_def dest: set_takeWhileD)
    have dist: "distinct earlier"
      using wf by (simp add: earlier_def pool_wf_def)
    have knot: "k \<notin> set earlier"
      by (auto simp: earlier_def dest: set_takeWhileD)
    have disj: "set earlier \<inter> dom (finished p0) = {}"
      using wf sub by (auto simp: pool_wf_def p0_def)
    have ok0: "trace_ok p0"
      using wf by (simp add: pool_wf_def p0_def trace_ok_def)
    have ok1: "trace_ok p1"
      unfolding p1_def using ok0 dist disj by (rule run_jobs_trace_ok)
    have dom1: "dom (finished p1) = dom (finished p) \<union> set earlier"
      by (simp add: p1_def run_jobs_fields p0_def)
    have none1: "finished p1 k = None"
      using None knot by (simp add: p1_def run_jobs_finished_other p0_def)
    have pend1: "pending p1 = filter (\<lambda>j. j \<noteq> k \<and> j \<notin> set earlier) (pending p)"
      by (simp add: p1_def run_jobs_fields p0_def)
    have stable1: "finished p1 j = finished p j" if "finished p j \<noteq> None" for j
    proof -
      from that wf sub have "j \<notin> set earlier" by (auto simp: pool_wf_def)
      then show ?thesis by (simp add: p1_def run_jobs_finished_other p0_def)
    qed
    from run_jobs_trace[of f items earlier p0] obtain ext where
      ext: "trace p1 = trace p @ ext" "completions_only ext"
      by (auto simp: p1_def p0_def)
    have 1: "finished q k = Some (fst (future_result f items k p))"
      by (simp add: q_def fr run_job_fields)
    have 2: "pool_wf q"
      unfolding pool_wf_def
    proof (intro conjI)
      show "distinct (pending q)"
        using wf by (simp add: q_def fr run_job_fields pend1 pool_wf_def)
      show "set (pending q) \<inter> dom (finished q) = {}"
        using wf by (auto simp: q_def fr run_job_fields pend1 pool_wf_def dom1)
      show "trace_ok q"
        unfolding q_def fr using ok1 none1 by (rule run_job_trace_ok)
    qed
    have 3: "\<forall>j. finished p j \<noteq> None \<longrightarrow> finished q j = finished p j"
      using stable1 None by (auto simp: q_def fr run_job_fields)
    have 4: "results q = results p"
      by (simp add: q_def fr run_job_fields p1_def run_jobs_fields p0_def)
    have "trace q = trace p @ (ext @ [Finished k (fst (run_job f items k p1))])
        \<and> completions_only (ext @ [Finished k (fst (run_job f items k p1))])"
      using ext by (simp add: q_def fr run_job_fields completions_only_def)
    then have 5: "\<exists>ext. trace q = trace p @ ext \<and> completions_only ext"
      by blast
    from 1 2 3 4 5 show ?thesis
      by blast
  qed
  then show ?thesis by (simp add: q_def)
qed

lemma collect_fields:
  "pending (collect f cb items k p) = pending (snd (future_result f items k p))"
  "finished (collect f cb items k p) = finished (snd (future_result f items k p))"
  "results (collect f cb items k p)
     = results (snd (future_result f items k p))
       @ (case fst (future_result f items k p) of Inl e \<Rightarrow> [] | Inr r \<Rightarrow> [r])"
  by (simp_all add: collect_def Let_def split: prod.splits sum.splits option.splits)

lemma collect_trace:
  "\<exists>tail. trace (collect f cb items k p) = trace (snd (future_result f items k p)) @ tail
     \<and> completions_of tail = []
     \<and> calls_of tail = (case fst (future_result f items k p) of
                          Inl e \<Rightarrow> []
                        | Inr r \<Rightarrow> (case cb of None \<Rightarrow> [] | Some c \<Rightarrow> [(k, items ! k, r)]))
     \<and> (\<forall>k' x r. Called k' x r \<in> set tail \<longrightarrow> k' = k \<and> fst (future_result f items k p) = Inr r)"
proof (cases "future_result f items k p")
  case (Pair out p1)
  show ?thesis
  proof (cases out)
    case (Inl e)
    with Pair show ?thesis
      by (simp add: collect_def completions_of_simps calls_of_simps)
  next
    case (Inr r)
    show ?thesis
    proof (cases cb)
      case None
      with Pair Inr show ?thesis
        by (simp add: collect_def completions_of_simps calls_of_simps)
    next
      case (Some c)
      obtain err w' where cw: "c (items ! k) r (world p1) = (err, w')"
        by (cases "c (items ! k) r (world p1)")
      show ?thesis
      proof (cases err)
        case None
        with Pair Inr Some cw show ?thesis
          by (simp add: collect_def completions_of_simps calls_of_simps)
      next
        case (Some e)
        with Pair Inr \<open>cb = Some c\<close> cw show ?thesis
          by (simp add: collect_def completions_of_simps calls_of_simps)
      qed
    qed
  qed
qed

lemma returned_simps:
  "finished p k = Some (Inr r) \<Longrightarrow> returned p k = Some r"
  "finished p k = Some (Inl e) \<Longrightarrow> returned p k = None"
  "finished p k = None \<Longrightarrow> returned p k = None"
  by (simp_all add: returned_def)

lemma collect_props:
  assumes wf: "pool_wf p"
  shows "pool_wf (collect f cb items k p)
    \<and> finished (collect f cb items k p) k \<noteq> None
    \<and> (\<forall>j. finished p j \<noteq> None \<longrightarrow> finished (collect f cb items k p) j = finished p j)
    \<and> results (collect f cb items k p)
        = results p @ (case returned (collect f cb items k p) k of None \<Rightarrow> [] | Some r \<Rightarrow> [r])
    \<and> calls_of (trace (collect f cb items k p))
        = calls_of (trace p)
          @ (case cb of
               None \<Rightarrow> []
             | Some c \<Rightarrow> (case returned (collect f cb items k p) k of
                            None \<Rightarrow> [] | Some r \<Rightarrow> [(k, items ! k, r)]))
    \<and> (called_late (trace p) \<longrightarrow> called_late (trace (collect f cb items k p)))"
proof -
  define out where "out = fst (future_result f items k p)"
  define p1 where "p1 = snd (future_result f items k p)"
  define q where "q = collect f cb items k p"
  from future_result_props[OF wf, of f items k]
  have fin1: "finished p1 k = Some out"
    and wf1: "pool_wf p1"
    and stable: "\<forall>j. finished p j \<noteq> None \<longrightarrow> finished p1 j = finished p j"
    and res1: "results p1 = results p"
    and tr1: "\<exists>ext. trace p1 = trace p @ ext \<and> completions_only ext"
    by (simp_all add: out_def p1_def)
  from tr1 obtain ext where ext: "trace p1 = trace p @ ext" "completions_only ext"
    by blast
  from collect_trace[of f cb items k p] obtain tail where
    tail: "trace q = trace p1 @ tail" "completions_of tail = []"
      "calls_of tail = (case out of Inl e \<Rightarrow> []
                        | Inr r \<Rightarrow> (case cb of None \<Rightarrow> [] | Some c \<Rightarrow> [(k, items ! k, r)]))"
      "\<forall>k' x r. Called k' x r \<in> set tail \<longrightarrow> k' = k \<and> out = Inr r"
    unfolding q_def p1_def out_def by blast
  have finq: "finished q = finished p1" and pendq: "pending q = pending p1"
    and resq: "results q = results p1 @ (case out of Inl e \<Rightarrow> [] | Inr r \<Rightarrow> [r])"
    by (simp_all add: q_def p1_def out_def collect_fields)
  have retq: "returned q k = (case out of Inl e \<Rightarrow> None | Inr r \<Rightarrow> Some r)"
    using fin1 by (simp add: returned_def finq split: sum.splits)
  have 1: "pool_wf q"
    using wf1 tail(1,2) by (simp add: pool_wf_def trace_ok_def finq pendq completions_of_append)
  have 2: "finished q k \<noteq> None"
    using fin1 by (simp add: finq)
  have 3: "\<forall>j. finished p j \<noteq> None \<longrightarrow> finished q j = finished p j"
    using stable by (simp add: finq)
  have 4: "results q = results p @ (case returned q k of None \<Rightarrow> [] | Some r \<Rightarrow> [r])"
    by (simp add: resq res1 retq split: sum.splits)
  have 5: "calls_of (trace q) = calls_of (trace p)
          @ (case cb of None \<Rightarrow> []
             | Some c \<Rightarrow> (case returned q k of None \<Rightarrow> [] | Some r \<Rightarrow> [(k, items ! k, r)]))"
    using ext(2) tail(3)
    by (simp add: tail(1) ext(1) calls_of_append completions_only_calls_of retq
             split: sum.splits option.splits)
  have 6: "called_late (trace q)" if late: "called_late (trace p)"
  proof -
    have a: "called_late (trace p1)"
      unfolding ext(1) using late completions_only_no_calls[OF ext(2)]
      by (intro called_late_append) auto
    have "Finished k (Inr r) \<in> set (trace p1)" if "out = Inr r" for r
    proof -
      from wf1 fin1 that have "map_of (completions_of (trace p1)) k = Some (Inr r)"
        by (simp add: pool_wf_def trace_ok_def)
      then have "(k, Inr r) \<in> set (completions_of (trace p1))"
        by (rule map_of_SomeD)
      then show ?thesis
        by (auto simp: completions_of_def List.map_filter_def split: event.splits)
    qed
    with tail(4) show ?thesis
      unfolding tail(1) using a by (intro called_late_append) auto
  qed
  from 1 2 3 4 5 6 show ?thesis
    unfolding q_def by blast
qed

lemma run_job_outcome: "fst (run_job f items j p) = fst (f (items ! j) (world p))"
  by (simp add: run_job_def case_prod_unfold Let_def)

lemma run_job_outcomes:
  "job_outcomes f items p \<Longrightarrow> job_outcomes f items (snd (run_job f items j p))"
  unfolding job_outcomes_def by (auto simp: run_job_fields run_job_outcome)

lemma run_jobs_outcomes:
  "job_outcomes f items p \<Longrightarrow> job_outcomes f items (run_jobs f items js p)"
  by (induction js arbitrary: p) (simp_all add: run_jobs_Nil run_jobs_Cons run_job_outcomes)

lemma future_result_outcomes:
  assumes "job_outcomes f items p"
  shows "job_outcomes f items (snd (future_result f items k p))"
proof (cases "finished p k")
  case (Some out)
  with assms show ?thesis by (simp add: future_result_def)
next
  case None
  have "job_outcomes f items (p\<lparr>pending := js\<rparr>)" for js
    using assms by (simp add: job_outcomes_def)
  then show ?thesis
    using None by (simp add: future_result_def Let_def run_job_outcomes run_jobs_outcomes)
qed

lemma collect_outcomes:
  "job_outcomes f items p \<Longrightarrow> job_outcomes f items (collect f cb items k p)"
  using future_result_outcomes[of f items p k]
  by (simp add: job_outcomes_def collect_fields)

lemma fold_collect_outcomes:
  "job_outcomes f items p \<Longrightarrow> job_outcomes f items (fold (collect f cb items) ks p)"
  by (induction ks arbitrary: p) (simp_all add: collect_outcomes)

lemma fold_collect_inv:
  assumes "pool_wf p0" "called_late (trace p0)" "results p0 = []" "calls_of (trace p0) = []"
  shows "pool_wf (fold (collect f cb items) [0..<m] p0)
    \<and> (\<forall>k<m. finished (fold (collect f cb items) [0..<m] p0) k \<noteq> None)
    \<and> results (fold (collect f cb items) [0..<m] p0)
        = List.map_filter (returned (fold (collect f cb items) [0..<m] p0)) [0..<m]
    \<and> calls_of (trace (fold (collect f cb items) [0..<m] p0))
        = calls_expected cb items (fold (collect f cb items) [0..<m] p0) m
    \<and> called_late (trace (fold (collect f cb items) [0..<m] p0))"
proof (induction m)
  case 0
  from assms show ?case by (simp add: calls_expected_def split: option.splits)
next
  case (Suc m)
  define p where "p = fold (collect f cb items) [0..<m] p0"
  define q where "q = collect f cb items m p"
  have q: "fold (collect f cb items) [0..<Suc m] p0 = q"
    by (simp add: q_def p_def)
  from Suc.IH have wf: "pool_wf p" and all: "\<forall>k<m. finished p k \<noteq> None"
    and res: "results p = List.map_filter (returned p) [0..<m]"
    and calls: "calls_of (trace p) = calls_expected cb items p m"
    and late: "called_late (trace p)"
    by (simp_all add: p_def)
  note cp = collect_props[OF wf, of f cb items m, folded q_def]
  have wfq: "pool_wf q" and finq: "finished q m \<noteq> None"
    and stable: "\<forall>j. finished p j \<noteq> None \<longrightarrow> finished q j = finished p j"
    using cp by blast+
  have resq: "results q = results p @ (case returned q m of None \<Rightarrow> [] | Some r \<Rightarrow> [r])"
    using cp by blast
  have callsq: "calls_of (trace q) = calls_of (trace p)
          @ (case cb of None \<Rightarrow> []
             | Some c \<Rightarrow> (case returned q m of None \<Rightarrow> [] | Some r \<Rightarrow> [(m, items ! m, r)]))"
    using cp by blast
  have lateq: "called_late (trace q)"
    using cp late by blast
  have same: "returned q k = returned p k" if "k < m" for k
    using that all stable by (simp add: returned_def)
  have 2: "\<forall>k<Suc m. finished q k \<noteq> None"
    using all stable finq by (auto simp: less_Suc_eq)
  have old: "List.map_filter (returned q) [0..<m] = List.map_filter (returned p) [0..<m]"
    by (rule map_filter_cong_set) (simp add: same)
  have 3: "results q = List.map_filter (returned q) [0..<Suc m]"
    by (simp add: resq res map_filter_append old split: option.splits)
  have old': "List.map_filter (\<lambda>k. map_option (\<lambda>r. (k, items ! k, r)) (returned q k)) [0..<m]
      = List.map_filter (\<lambda>k. map_option (\<lambda>r. (k, items ! k, r)) (returned p k)) [0..<m]"
    by (rule map_filter_cong_set) (simp add: same)
  have 4: "calls_of (trace q) = calls_expected cb items q (Suc m)"
    using calls
    by (simp add: callsq calls_expected_def map_filter_append old' split: option.splits)
  from wfq 2 3 4 lateq show ?case
    unfolding q by blast
qed

lemma completion_order_props:
  "distinct (completion_order workers n completion)"
  "set (completion_order workers n completion) \<subseteq> {..<n}"
  by (auto simp: completion_order_def list_all_iff)

lemma replay_append:
  "replay f cb items w (es @ fs) =
     (case replay f cb items w es of None \<Rightarrow> None | Some w' \<Rightarrow> replay f cb items w' fs)"
proof (induction es arbitrary: w)
  case Nil
  show ?case by simp
next
  case (Cons e es)
  show ?case
  proof (cases e)
    case (Finished k out)
    with Cons show ?thesis by simp
  next
    case (Called k x r)
    with Cons show ?thesis by (cases cb) simp_all
  next
    case (Logged err)
    with Cons show ?thesis by simp
  qed
qed

lemma run_job_world: "world (snd (run_job f items j p)) = snd (f (items ! j) (world p))"
  by (simp add: run_job_def case_prod_unfold Let_def)

lemma run_job_replay:
  assumes "replay_ok f cb items w0 p" "j < length items"
  shows "replay_ok f cb items w0 (snd (run_job f items j p))"
  using assms
  by (simp add: replay_ok_def run_job_fields run_job_world run_job_outcome replay_append)

lemma run_jobs_replay:
  "replay_ok f cb items w0 p \<Longrightarrow> set js \<subseteq> {..<length items}
     \<Longrightarrow> replay_ok f cb items w0 (run_jobs f items js p)"
  by (induction js arbitrary: p) (simp_all add: run_jobs_Nil run_jobs_Cons run_job_replay)

lemma replay_ok_pending:
  "replay_ok f cb items w0 p \<Longrightarrow> set js \<subseteq> set (pending p)
     \<Longrightarrow> replay_ok f cb items w0 (p\<lparr>pending := js\<rparr>)"
  by (auto simp: replay_ok_def)

lemma future_result_replay:
  assumes ok: "replay_ok f cb items w0 p" and k: "k < length items"
  shows "replay_ok f cb items w0 (snd (future_result f items k p))"
proof (cases "finished p k")
  case (Some out)
  with ok show ?thesis by (simp add: future_result_def)
next
  case None
  define earlier where
    "earlier = (if k \<in> set (pending p) then takeWhile (\<lambda>j. j \<noteq> k) (pending p) else [])"
  define p0 where
    "p0 = p\<lparr>pending := filter (\<lambda>j. j \<noteq> k \<and> j \<notin> set earlier) (pending p)\<rparr>"
  have fr: "future_result f items k p = run_job f items k (run_jobs f items earlier p0)"
    using None by (simp add: future_result_def earlier_def p0_def Let_def)
  have sub: "set earlier \<subseteq> set (pending p)"
    by (auto simp: earlier_def dest: set_takeWhileD)
  with ok have rng: "set earlier \<subseteq> {..<length items}"
    by (auto simp: replay_ok_def)
  have "replay_ok f cb items w0 p0"
    unfolding p0_def using ok by (rule replay_ok_pending) auto
  then have "replay_ok f cb items w0 (run_jobs f items earlier p0)"
    using rng by (rule run_jobs_replay)
  then show ?thesis
    unfolding fr using k by (rule run_job_replay)
qed

lemma collect_replay:
  assumes ok: "replay_ok f cb items w0 p" and k: "k < length items"
  shows "replay_ok f cb items w0 (collect f cb items k p)"
proof -
  obtain out p1 where fr: "future_result f items k p = (out, p1)"
    by (cases "future_result f items k p")
  from future_result_replay[OF ok k] fr have ok1: "replay_ok f cb items w0 p1"
    by simp
  show ?thesis
  proof (cases out)
    case (Inl e)
    with fr ok1 show ?thesis
      by (simp add: collect_def replay_ok_def replay_append)
  next
    case (Inr r)
    show ?thesis
    proof (cases cb)
      case None
      with fr Inr ok1 show ?thesis
        by (simp add: collect_def replay_ok_def)
    next
      case (Some c)
      obtain err w' where cw: "c (items ! k) r (world p1) = (err, w')"
        by (cases "c (items ! k) r (world p1)")
      show ?thesis
      proof (cases err)
        case None
        with fr Inr Some cw ok1 k show ?thesis
          by (simp add: collect_def replay_ok_def replay_append)
      next
        case (Some e)
        with fr Inr \<open>cb = Some c\<close> cw ok1 k show ?thesis
          by (simp add: collect_def replay_ok_def replay_append)
      qed
    qed
  qed
qed

lemma fold_collect_replay:
  "replay_ok f cb items w0 p \<Longrightarrow> set ks \<subseteq> {..<length items}
     \<Longrightarrow> replay_ok f cb items w0 (fold (collect f cb items) ks p)"
  by (induction ks arbitrary: p) (simp_all add: collect_replay)

lemma initial_pool_ok:
  assumes "distinct js"
  shows "pool_wf \<lparr>world = w, pending = js, finished = Map.empty, results = [], trace = []\<rparr>"
    and "job_outcomes f items \<lparr>world = w, pending = js, finished = Map.empty, results = [], trace = []\<rparr>"
  using assms
  by (simp_all add: pool_wf_def trace_ok_def completions_of_simps job_outcomes_def)

lemma process_items_inv:
  fixes f :: "'a \<Rightarrow> 's \<Rightarrow> (py_error + 'r) \<times> 's"
  assumes "0 < max_workers self"
  shows "\<exists>P. process_items self items f cb completion w = Inr P
    \<and> (\<forall>k<length items. finished P k \<noteq> None)
    \<and> job_outcomes f items P
    \<and> results P = List.map_filter (returned P) [0..<length items]
    \<and> calls_of (trace P) = calls_expected cb items P (length items)
    \<and> called_late (trace P)
    \<and> trace_ok P
    \<and> replay f cb items w (trace P) = Some (world P)"
proof -
  define js where "js = completion_order (nat (max_workers self)) (length items) completion"
  define p0 :: "('s, 'a, 'r) pool" where
    "p0 = \<lparr>world = w, pending = js, finished = Map.empty, results = [], trace = []\<rparr>"
  have P: "process_items self items f cb completion w
             = Inr (fold (collect f cb items) [0..<length items] p0)"
    using assms by (simp add: process_items_def p0_def js_def)
  have js: "distinct js" "set js \<subseteq> {..<length items}"
    by (simp_all add: js_def completion_order_props)
  have wf0: "pool_wf p0" and out0: "job_outcomes f items p0"
    unfolding p0_def using js(1) by (rule initial_pool_ok)+
  have "called_late (trace p0)" "results p0 = []" "calls_of (trace p0) = []"
    by (simp_all add: p0_def called_late_def calls_of_simps)
  note inv = fold_collect_inv[OF wf0 this, of f cb items "length items"]
  have "replay_ok f cb items w p0"
    using js(2) by (simp add: replay_ok_def p0_def)
  then have "replay_ok f cb items w (fold (collect f cb items) [0..<length items] p0)"
    by (rule fold_collect_replay) auto
  with inv fold_collect_outcomes[OF out0, of cb "[0..<length items]"]
  show ?thesis
    unfolding P by (simp add: pool_wf_def replay_ok_def)
qed

lemma length_map_filter:
  "length (List.map_filter g xs) = length (filter (\<lambda>x. g x \<noteq> None) xs)"
  by (simp add: List.map_filter_def)

lemma map_fst_calls_expected:
  "map fst (calls_expected (Some c) items p m) = filter (\<lambda>k. returned p k \<noteq> None) [0..<m]"
  by (induction m) (auto simp: calls_expected_def map_filter_append)

text \<open>
  Claim C1 says that \<open>process_items\<close> returns one outcome per item, also for the items whose
  job raised, and calls the callback once per item. With three items of which the second job
  raises, two results are returned and the callback runs twice (it counts in the world).
\<close>

theorem process_items_length_counterexample:
  "results (projr (process_items \<lparr>max_workers = 4\<rparr> [1, -2, 3] job_tenfold (Some count_callback) [0, 1, 2] 0))
     = [10, 30]
   \<and> world (projr (process_items \<lparr>max_workers = 4\<rparr> [1, -2, 3] job_tenfold (Some count_callback) [0, 1, 2] 0))
     = 2
   \<and> length [1, -2, 3 :: int] = 3"
  by (simp add: process_items_def completion_order_def collect_def future_result_def run_jobs_def
        run_job_def job_tenfold_def count_callback_def upt_rec Let_def)

text \<open>
  Claim C1, amended. \<open>process_items\<close> returns exactly one result for each item whose job
  returned, in the order of submission: the list is the list of the results of the returning
  jobs, taken in the order of the items. An item whose job raised contributes nothing to the
  list (its exception is caught), so the length of the list and the number of raising jobs add
  up to the number of items. A given callback is invoked once for each returned result, with
  the item and its result, and not otherwise: the recorded invocations are these, and the
  final world is the one obtained from the initial world by applying the job function at each
  recorded completion and the callback at each recorded invocation, in the recorded order;
  the outcome of every job is the one recorded at its only completion. This holds for every
  order of completion.
\<close>

theorem process_items_result_count:
  fixes f :: "'a \<Rightarrow> 's \<Rightarrow> (py_error + 'r) \<times> 's"
  assumes "0 < max_workers self"
  shows "\<exists>P. process_items self items f cb completion w = Inr P
     \<and> results P = List.map_filter (returned P) [0..<length items]
     \<and> length (results P) + length (filter (raised P) [0..<length items]) = length items
     \<and> length (results P) = length (filter (\<lambda>k. returned P k \<noteq> None) [0..<length items])
     \<and> calls_of (trace P) = calls_expected cb items P (length items)
     \<and> length (calls_of (trace P)) = (if cb = None then 0 else length (results P))
     \<and> trace_ok P
     \<and> replay f cb items w (trace P) = Some (world P)"
proof -
  from process_items_inv[OF assms, of items f cb completion w] obtain P where
    P: "process_items self items f cb completion w = Inr P"
    and all: "\<forall>k<length items. finished P k \<noteq> None"
    and res: "results P = List.map_filter (returned P) [0..<length items]"
    and calls: "calls_of (trace P) = calls_expected cb items P (length items)"
    and tr: "trace_ok P"
    and rp: "replay f cb items w (trace P) = Some (world P)"
    by blast
  define ok where "ok = (\<lambda>k. returned P k \<noteq> None)"
  have len: "length (results P) = length (filter ok [0..<length items])"
    by (simp add: res length_map_filter ok_def)
  have eq: "filter (raised P) [0..<length items] = filter (\<lambda>k. \<not> ok k) [0..<length items]"
    using all
    by (intro filter_cong) (auto simp: ok_def raised_def returned_def split: option.splits sum.splits)
  have count: "length (results P) + length (filter (raised P) [0..<length items]) = length items"
    unfolding len eq using sum_length_filter_compl[of ok "[0..<length items]"] by simp
  have "length (calls_of (trace P)) = (if cb = None then 0 else length (results P))"
    by (cases cb) (simp_all add: calls calls_expected_def res length_map_filter)
  with P res len count calls tr rp show ?thesis
    unfolding ok_def by blast
qed

text \<open>
  Three items on four workers, the second job raises, the third job completes first. The
  callback has been applied twice: the world counts two.
\<close>

theorem process_items_result_count_witness:
  "0 < max_workers \<lparr>max_workers = 4\<rparr>
   \<and> completion_order 4 3 [2, 0, 1] = [2, 0, 1]
   \<and> results (projr (process_items \<lparr>max_workers = 4\<rparr> [1, -2, 3] job_tenfold (Some count_callback) [2, 0, 1] 0))
       = [10, 30]
   \<and> filter (raised (projr (process_items \<lparr>max_workers = 4\<rparr> [1, -2, 3] job_tenfold (Some count_callback) [2, 0, 1] 0)))
        [0..<3] = [1]
   \<and> calls_of (trace (projr (process_items \<lparr>max_workers = 4\<rparr> [1, -2, 3] job_tenfold (Some count_callback) [2, 0, 1] 0)))
       = [(0, 1, 10), (2, 3, 30)]
   \<and> world (projr (process_items \<lparr>max_workers = 4\<rparr> [1, -2, 3] job_tenfold (Some count_callback) [2, 0, 1] 0))
       = 2"
  using process_items_result_count[of "\<lparr>max_workers = 4\<rparr>" "[1, -2, 3]" job_tenfold "Some count_callback" "[2, 0, 1]" 0]
  by (simp add: process_items_def completion_order_def collect_def future_result_def run_jobs_def
        run_job_def job_tenfold_def count_callback_def upt_rec Let_def raised_def calls_of_def
        calls_expected_def returned_def trace_ok_def completions_of_def)

text \<open>
  Claim C7 says that the callbacks follow the order of completion and that each item gets
  exactly one. When the second of two jobs completes first, the callbacks still run for the
  first item and then for the second; and an item whose job raises gets no callback.
\<close>

theorem callback_completion_order_counterexample:
  "map fst (completions_of (trace (projr
      (process_items \<lparr>max_workers = 2\<rparr> [1, 2] job_tenfold (Some count_callback) [1, 0] 0))))
     = [1, 0]
   \<and> map fst (calls_of (trace (projr
      (process_items \<lparr>max_workers = 2\<rparr> [1, 2] job_tenfold (Some count_callback) [1, 0] 0))))
     = [0, 1]
   \<and> calls_of (trace (projr
      (process_items \<lparr>max_workers = 2\<rparr> [1, -2] job_tenfold (Some count_callback) [0, 1] 0)))
     = [(0, 1, 10)]"
  by (simp add: process_items_def completion_order_def collect_def future_result_def run_jobs_def
        run_job_def job_tenfold_def count_callback_def upt_rec Let_def calls_of_def completions_of_def)

text \<open>
  Claim C7, amended. Each callback invocation happens after the job of its item has returned,
  with that job's result; the callback is invoked exactly once for each item whose job
  returned, never for an item whose job raised; and the invocations are in the order of
  submission (strictly increasing job numbers), whatever the order of completion. The
  recorded invocations are the applications of the callback: the final world is the one
  obtained from the initial world by applying the job function at each recorded completion
  and the callback, to the recorded item and result, at each recorded invocation, in the
  recorded order; and the outcome of every job is the one recorded at its only completion.
\<close>

theorem callbacks_follow_submission_order:
  fixes f :: "'a \<Rightarrow> 's \<Rightarrow> (py_error + 'r) \<times> 's"
  assumes "0 < max_workers self"
  shows "\<exists>P. process_items self items f (Some cb) completion w = Inr P
     \<and> called_late (trace P)
     \<and> map fst (calls_of (trace P)) = filter (\<lambda>k. returned P k \<noteq> None) [0..<length items]
     \<and> sorted_wrt (<) (map fst (calls_of (trace P)))
     \<and> calls_of (trace P) = calls_expected (Some cb) items P (length items)
     \<and> trace_ok P
     \<and> replay f (Some cb) items w (trace P) = Some (world P)"
proof -
  from process_items_inv[OF assms, of items f "Some cb" completion w] obtain P where
    P: "process_items self items f (Some cb) completion w = Inr P"
    and calls: "calls_of (trace P) = calls_expected (Some cb) items P (length items)"
    and late: "called_late (trace P)"
    and tr: "trace_ok P"
    and rp: "replay f (Some cb) items w (trace P) = Some (world P)"
    by blast
  have m: "map fst (calls_of (trace P)) = filter (\<lambda>k. returned P k \<noteq> None) [0..<length items]"
    by (simp add: calls map_fst_calls_expected)
  have "sorted_wrt (<) (map fst (calls_of (trace P)))"
    unfolding m by (rule sorted_wrt_filter) simp
  with P late m calls tr rp show ?thesis by blast
qed

text \<open>
  Three jobs on three workers completing in reverse order, the second one raising. The
  callback has been applied twice: the world counts two.
\<close>

theorem callbacks_follow_submission_order_witness:
  "0 < max_workers \<lparr>max_workers = 3\<rparr>
   \<and> completion_order 3 3 [2, 1, 0] = [2, 1, 0]
   \<and> trace (projr (process_items \<lparr>max_workers = 3\<rparr> [1, -2, 3] job_tenfold (Some count_callback) [2, 1, 0] 0))
       = [Finished 2 (Inr 30), Finished 1 (Inl ValueError), Finished 0 (Inr 10),
          Called 0 1 10, Logged ValueError, Called 2 3 30]
   \<and> world (projr (process_items \<lparr>max_workers = 3\<rparr> [1, -2, 3] job_tenfold (Some count_callback) [2, 1, 0] 0))
       = 2"
  using callbacks_follow_submission_order[of "\<lparr>max_workers = 3\<rparr>" "[1, -2, 3]" job_tenfold count_callback "[2, 1, 0]" 0]
  by (simp add: process_items_def completion_order_def collect_def future_result_def run_jobs_def
        run_job_def job_tenfold_def count_callback_def upt_rec Let_def calls_expected_def
        returned_def trace_ok_def completions_of_def)

text \<open>
  Claim C10. Every job is run exactly once, on its own item, and the returned list holds, in
  the order of submission, the results of the jobs that returned: its \<open>k\<close>-th element belongs
  to the \<open>k\<close>-th item whose job did not raise. The callback is applied by the collecting
  iteration in the same order, to the same items and results: the recorded invocations are
  these, and the final world is the one obtained from the initial world by applying the job
  function at each recorded completion (yielding the recorded outcome in the world of that
  moment) and the callback at each recorded invocation, in the recorded order. Neither the
  list nor the invocations depend on the order of completion.
\<close>

theorem process_items_submission_order:
  fixes f :: "'a \<Rightarrow> 's \<Rightarrow> (py_error + 'r) \<times> 's"
  assumes "0 < max_workers self"
  shows "\<exists>P. process_items self items f cb completion w = Inr P
     \<and> (\<forall>k<length items. \<exists>w'. finished P k = Some (fst (f (items ! k) w')))
     \<and> results P = List.map_filter (returned P) [0..<length items]
     \<and> calls_of (trace P) = calls_expected cb items P (length items)
     \<and> distinct (map fst (completions_of (trace P)))
     \<and> map_of (completions_of (trace P)) = finished P
     \<and> replay f cb items w (trace P) = Some (world P)"
proof -
  from process_items_inv[OF assms, of items f cb completion w] obtain P where
    P: "process_items self items f cb completion w = Inr P"
    and all: "\<forall>k<length items. finished P k \<noteq> None"
    and out: "job_outcomes f items P"
    and res: "results P = List.map_filter (returned P) [0..<length items]"
    and calls: "calls_of (trace P) = calls_expected cb items P (length items)"
    and tr: "trace_ok P"
    and rp: "replay f cb items w (trace P) = Some (world P)"
    by blast
  from all out have "\<forall>k<length items. \<exists>w'. finished P k = Some (fst (f (items ! k) w'))"
    unfolding job_outcomes_def by fastforce
  with P res calls tr rp show ?thesis
    unfolding trace_ok_def by blast
qed

text \<open>
  Three items on two workers; the jobs complete in the order 1, 0, 2 and the second one
  raises. The callback has been applied twice: the world counts two.
\<close>

theorem process_items_submission_order_witness:
  "0 < max_workers \<lparr>max_workers = 2\<rparr>
   \<and> completion_order 2 3 [1, 0, 2] = [1, 0, 2]
   \<and> map (returned (projr (process_items \<lparr>max_workers = 2\<rparr> [3, -2, 1] job_tenfold (Some count_callback) [1, 0, 2] 0)))
        [0..<3] = [Some 30, None, Some 10]
   \<and> results (projr (process_items \<lparr>max_workers = 2\<rparr> [3, -2, 1] job_tenfold (Some count_callback) [1, 0, 2] 0))
       = [30, 10]
   \<and> trace (projr (process_items \<lparr>max_workers = 2\<rparr> [3, -2, 1] job_tenfold (Some count_callback) [1, 0, 2] 0))
       = [Finished 1 (Inl ValueError), Finished 0 (Inr 30), Called 0 3 30, Logged ValueError,
          Finished 2 (Inr 10), Called 2 1 10]
   \<and> world (projr (process_items \<lparr>max_workers = 2\<rparr> [3, -2, 1] job_tenfold (Some count_callback) [1, 0, 2] 0))
       = 2"
  using process_items_submission_order[of "\<lparr>max_workers = 2\<rparr>" "[3, -2, 1]" job_tenfold "Some count_callback" "[1, 0, 2]" 0]
  by (simp add: process_items_def completion_order_def collect_def future_result_def run_jobs_def
        run_job_def job_tenfold_def count_callback_def upt_rec Let_def calls_of_def
        calls_expected_def returned_def completions_of_def)


section \<open>Properties of the converters and of the batch\<close>

text \<open>
  Claim C5. For every path whose extension, lowered, is none of \<open>.pdf .doc .docx .jpg .jpeg
  .png .gif\<close>, \<open>process_file\<close> returns the unsupported-file-type message with no archive
  path, whatever the collaborators and the world, and leaves the file system as it was: no
  directory is created and no file is written.
\<close>

theorem process_file_unsupported:
  assumes "lower (snd (splitext file_path)) \<notin> set supported_extensions"
  shows "fst (process_file ext self file_path w) = Inr (unsupported_msg, None)
       \<and> files (snd (process_file ext self file_path w)) = files w"
  using assms
  by (simp add: process_file_def time_time_def supported_extensions_def Let_def)

text \<open>An upper-case unknown extension; only the clock has been read.\<close>

theorem process_file_unsupported_witness:
  "lower (snd (splitext ''uploads/c.XYZ'')) \<notin> set supported_extensions
   \<and> process_file example_externals example_converter ''uploads/c.XYZ'' (example_world 17 1)
       = (Inr (unsupported_msg, None), (example_world 17 1)\<lparr>ticks := 1\<rparr>)"
  using process_file_unsupported[of "''uploads/c.XYZ''" example_externals example_converter "example_world 17 1"]
  by (simp add: process_file_def time_time_def supported_extensions_def Let_def
        lower_def splitext_def basename_def lower_char_def example_world_def)

lemma map_of_put: "map_of (put p n fs) q = (if q = p then Some n else map_of fs q)"
  by (induction fs) auto

lemma mkdir_keeps: "map_of fs q = Some x \<Longrightarrow> map_of (mkdir d fs) q = Some x"
  by (auto simp: mkdir_def exists_path_def map_of_put)

lemma fold_mkdir_keeps: "map_of fs q = Some x \<Longrightarrow> map_of (fold mkdir ds fs) q = Some x"
  by (induction ds arbitrary: fs) (simp_all add: mkdir_keeps)

lemma ensure_dir_keeps: "map_of fs q = Some x \<Longrightarrow> map_of (ensure_dir d fs) q = Some x"
  unfolding ensure_dir_def makedirs_def by (simp add: fold_mkdir_keeps del: fold_append)

text \<open>
  Claim C9 expects a table block of four lines after the heading. For a table of two rows
  and two columns the block has three lines (header, separator, one data row); the whole
  Markdown text has five lines, the second one empty.
\<close>

theorem docx_table_block_counterexample:
  "lines_of (projr (table_md [ [''A'', ''B''], [''C'', ''D''] ]))
     = [''| A | B |'', ''| --- | --- |'', ''| C | D |'']
   \<and> length (lines_of (projr (table_md [ [''A'', ''B''], [''C'', ''D''] ]))) = 3
   \<and> lines_of (projr (fst (docx_markdown example_externals ''output/task_17/images''
            (intro_document ''Heading 1'' [ [] ] ''A'' ''B'' ''C'' ''D'') [])))
     = [''# Intro'', [], ''| A | B |'', ''| --- | --- |'', ''| C | D |'']"
  by code_simp

lemma strip_Intro: "strip ''Intro'' = ''Intro''"
  by code_simp

lemma py_int_1: "py_int dec max_digits ''1'' = Inr 1"
  by (auto simp: py_int_def utf8_chars.simps utf8_len_def c_space_def digit_val_def Let_def)

lemma py_int_sp1: "py_int dec max_digits '' 1'' = Inr 1"
  by (auto simp: py_int_def utf8_chars.simps utf8_len_def c_space_def digit_val_def Let_def)

lemma replace_packed: "py_replace ''Heading'' [] ''Heading1'' = ''1''"
  by code_simp

lemma replace_spaced: "py_replace ''Heading'' [] ''Heading 1'' = '' 1''"
  by code_simp

lemma paragraph_md_intro_packed:
  "paragraph_md ext \<lparr>para_text = ''Intro'', para_style_name = ''Heading1'', para_runs = runs\<rparr>
     = Inr [''# Intro'']"
  by (simp add: paragraph_md_def strip_Intro startswith_def replace_packed py_int_1)

lemma paragraph_md_intro_spaced:
  "paragraph_md ext \<lparr>para_text = ''Intro'', para_style_name = ''Heading 1'', para_runs = runs\<rparr>
     = Inr [''# Intro'']"
  by (simp add: paragraph_md_def strip_Intro startswith_def replace_spaced py_int_sp1)

lemma paragraph_md_intro:
  "style = ''Heading1'' \<or> style = ''Heading 1'' \<Longrightarrow>
   paragraph_md ext \<lparr>para_text = ''Intro'', para_style_name = style, para_runs = runs\<rparr> = Inr [''# Intro'']"
  using paragraph_md_intro_packed paragraph_md_intro_spaced by blast

lemma fold_save_shapes_empty:
  "concat runs = [] \<Longrightarrow> fold (save_shapes d) runs st = st"
  by (induction runs arbitrary: st) simp_all

lemma path_join_md_zip:
  "path_join d (n @ ''.md'') \<noteq> path_join d (n @ ''.zip'')"
  by (cases n) (auto simp: path_join_def startswith_def)

text \<open>
  Claim C9, amended. Converting a DOCX document that consists of one paragraph \<open>Intro\<close> of
  style \<open>Heading1\<close> (or \<open>Heading 1\<close>, the name the library gives to the built-in style),
  whose runs hold no drawing, and one table of two rows and two columns does not raise and
  produces exactly the heading line \<open># Intro\<close>, an empty line, and a table block of three
  lines: the header row, the \<open>---\<close> separator row and one data row, without a final newline.
  Each cell text is stripped of the white space of Unicode at both ends (\<open>strip\<close>, which is
  \<open>str.strip\<close>). The same bytes are written to the Markdown file. This holds whatever the
  library reports as decimal digits.
\<close>

theorem docx_heading_and_table:
  assumes "map_of fs file_path = Some (File bytes)"
    and "style = ''Heading1'' \<or> style = ''Heading 1''"
    and "concat runs = []"
    and "docx_Document ext bytes = Inr (intro_document style runs a b c d)"
  shows "\<exists>r fs'. process_docx ext self file_path task_id fs = (Inr r, fs')
     \<and> md_content r = ''# Intro'' @ [CHR 0x0A, CHR 0x0A]
          @ ''| '' @ strip a @ '' | '' @ strip b @ '' |'' @ [CHR 0x0A]
          @ ''| --- | --- |'' @ [CHR 0x0A]
          @ ''| '' @ strip c @ '' | '' @ strip d @ '' |''
     \<and> map_of fs' (md_file_path r) = Some (File (Bytes (md_content r)))"
proof -
  let ?dir = "path_join (path_join (output_dir self) task_id) ''images''"
  have rd: "read_file (ensure_dir ?dir fs) file_path = Inr bytes"
    using assms(1) by (simp add: read_file_def ensure_dir_keeps)
  have md: "docx_markdown ext ?dir (intro_document style runs a b c d) (ensure_dir ?dir fs)
      = (Inr (''# Intro'' @ [CHR 0x0A, CHR 0x0A]
          @ ''| '' @ strip a @ '' | '' @ strip b @ '' |'' @ [CHR 0x0A]
          @ ''| --- | --- |'' @ [CHR 0x0A]
          @ ''| '' @ strip c @ '' | '' @ strip d @ '' |''), ensure_dir ?dir fs)"
    using paragraph_md_intro[OF assms(2)] fold_save_shapes_empty[OF assms(3)]
    by (simp add: docx_markdown_def intro_document_def table_md_def table_row_def)
  show ?thesis
    using rd md assms(4)
    by (simp add: process_docx_def Let_def write_file_def map_of_put path_join_md_zip)
qed

text \<open>
  A concrete document as the library yields it: the heading paragraph has one run, without
  drawings; the first cell starts with a no-break space (U+00A0) and ends with a space, the
  last cell starts with a space and ends with an ideographic space (U+3000).
\<close>

theorem docx_heading_and_table_witness:
  "map_of [(''in.docx'', File (Bytes ''D''))] ''in.docx'' = Some (File (Bytes ''D''))
   \<and> concat [ [] :: string option list ] = []
   \<and> docx_Document heading_externals (Bytes ''D'')
       = Inr (intro_document ''Heading 1'' [ [] ]
                [CHR 0xC2, CHR 0xA0, CHR ''N'', CHR ''a'', CHR ''m'', CHR ''e'', CHR '' '']
                ''Qty'' ''bolt'' [CHR '' '', CHR ''4'', CHR 0xE3, CHR 0x80, CHR 0x80])
   \<and> fst (process_docx heading_externals example_converter ''in.docx'' ''task_17''
            [(''in.docx'', File (Bytes ''D''))])
       = Inr \<lparr>md_content = ''# Intro'' @ [CHR 0x0A, CHR 0x0A] @ ''| Name | Qty |'' @ [CHR 0x0A]
                             @ ''| --- | --- |'' @ [CHR 0x0A] @ ''| bolt | 4 |'',
              zip_path = ''output/task_17/in.zip'', md_file_path = ''output/task_17/in.md'',
              image_dir = ''output/task_17/images''\<rparr>"
proof -
  have s: "strip [CHR 0xC2, CHR 0xA0, CHR ''N'', CHR ''a'', CHR ''m'', CHR ''e'', CHR '' ''] = ''Name''"
    "strip ''Qty'' = ''Qty''" "strip ''bolt'' = ''bolt''"
    "strip [CHR '' '', CHR ''4'', CHR 0xE3, CHR 0x80, CHR 0x80] = ''4''"
    by code_simp+
  have d: "docx_Document heading_externals (Bytes ''D'')
       = Inr (intro_document ''Heading 1'' [ [] ]
                [CHR 0xC2, CHR 0xA0, CHR ''N'', CHR ''a'', CHR ''m'', CHR ''e'', CHR '' '']
                ''Qty'' ''bolt'' [CHR '' '', CHR ''4'', CHR 0xE3, CHR 0x80, CHR 0x80])"
    by (simp add: heading_externals_def heading_document_def)
  have p: "path_join (path_join (output_dir example_converter) ''task_17'') ''in.md'' = ''output/task_17/in.md''"
    "path_join (path_join (output_dir example_converter) ''task_17'') ''in.zip'' = ''output/task_17/in.zip''"
    "path_join (path_join (output_dir example_converter) ''task_17'') ''images'' = ''output/task_17/images''"
    "split_first CHR ''.'' (basename ''in.docx'') = ''in''"
    by code_simp+
  from docx_heading_and_table[of "[(''in.docx'', File (Bytes ''D''))]" "''in.docx''" "Bytes ''D''"
          "''Heading 1''" "[ [] ]" heading_externals
          "[CHR 0xC2, CHR 0xA0, CHR ''N'', CHR ''a'', CHR ''m'', CHR ''e'', CHR '' '']"
          "''Qty''" "''bolt''" "[CHR '' '', CHR ''4'', CHR 0xE3, CHR 0x80, CHR 0x80]"
          example_converter "''task_17''", OF _ _ _ d]
  obtain r fs' where r: "process_docx heading_externals example_converter ''in.docx'' ''task_17''
            [(''in.docx'', File (Bytes ''D''))] = (Inr r, fs')"
    and m: "md_content r = ''# Intro'' @ [CHR 0x0A, CHR 0x0A] @ ''| Name | Qty |'' @ [CHR 0x0A]
                             @ ''| --- | --- |'' @ [CHR 0x0A] @ ''| bolt | 4 |''"
    by (auto simp: s)
  have z: "zip_path r = ''output/task_17/in.zip''" "md_file_path r = ''output/task_17/in.md''"
    "image_dir r = ''output/task_17/images''"
    using r d by (auto simp: process_docx_def Let_def p split: sum.splits prod.splits)
  from r m z d show ?thesis by simp
qed

lemma aggregate_concat:
  "fst (aggregate fs rs acc) = None
     \<Longrightarrow> snd (aggregate fs rs acc) = acc @ concat (map (result_entries fs) rs)"
proof (induction rs arbitrary: acc)
  case Nil
  show ?case by simp
next
  case (Cons r rs)
  show ?case
  proof (cases "result_archive r")
    case None
    with Cons show ?thesis by (simp add: result_entries_def)
  next
    case (Some zp)
    show ?thesis
    proof (cases "map_of fs zp")
      case None
      with Some Cons show ?thesis
        by (simp add: result_entries_def exists_path_def)
    next
      case (Some n)
      note n = this
      show ?thesis
      proof (cases n)
        case Dir
        with n \<open>result_archive r = Some zp\<close> Cons.prems show ?thesis
          by (simp add: exists_path_def read_file_def)
      next
        case (File fc)
        show ?thesis
        proof (cases fc)
          case (Bytes b)
          with File n \<open>result_archive r = Some zp\<close> Cons.prems show ?thesis
            by (simp add: exists_path_def read_file_def)
        next
          case (Archive members)
          with File n \<open>result_archive r = Some zp\<close> Cons.prems Cons.IH show ?thesis
            by (simp add: exists_path_def read_file_def result_entries_def Let_def)
        qed
      qed
    qed
  qed
qed

text \<open>
  Claim C8 says that two successful jobs with the same base name are told apart in the batch
  archive. For \<open>report.pdf\<close> and \<open>report.docx\<close>, converted in different seconds, both
  Markdown files are written under the one name \<open>report/report.md\<close>.
\<close>

theorem batch_archive_name_clash_counterexample:
  "aggregate [(''output/task_17/report.zip'', File (Archive [(''report.md'', Bytes ''from the pdf'')])),
              (''output/task_18/report.zip'', File (Archive [(''report.md'', Bytes ''from the docx'')]))]
     [(''from the pdf'', Some ''output/task_17/report.zip''),
      (''from the docx'', Some ''output/task_18/report.zip'')] []
   = (None, [(''report/report.md'', Bytes ''from the pdf''),
             (''report/report.md'', Bytes ''from the docx'')])"
  by (simp add: result_archive_def exists_path_def read_file_def split_first_def basename_def
        extract_members_def path_join_def startswith_def)

lemma result_entries_iff:
  "(n, c) \<in> set (result_entries fs r) \<longleftrightarrow>
     (\<exists>zp members rel. result_archive r = Some zp
        \<and> map_of fs zp = Some (File (Archive members))
        \<and> (rel, c) \<in> set (extract_members members)
        \<and> n = path_join (split_first CHR ''.'' (basename zp)) rel)"
proof (cases "result_archive r")
  case None
  then show ?thesis by (simp add: result_entries_def)
next
  case (Some zp)
  then show ?thesis
    by (cases "map_of fs zp")
       (auto simp: result_entries_def split: node.splits fcontent.splits)
qed

lemma result_archive_Some:
  "result_archive r = Some zp \<longleftrightarrow> (snd r = Some zp \<and> zp \<noteq> [])"
  by (auto simp: result_archive_def split: option.splits)

text \<open>
  Claim C8, amended. The aggregation writes every file of every successful result whose
  archive exists under the top-level directory named by the base name of that archive
  (the file name of \<open>zip_path\<close> up to its first dot), whatever the other results are. No
  disambiguation is applied: successful jobs whose archives have the same base name are all
  written under that one name, and members of equal paths then occur several times in the
  batch archive.
\<close>

theorem batch_archive_no_disambiguation:
  assumes "fst (aggregate fs rs []) = None"
    and "(md, Some zp) \<in> set rs" and "zp \<noteq> []"
    and "map_of fs zp = Some (File (Archive members))"
    and "(rel, c) \<in> set (extract_members members)"
  shows "(path_join (split_first CHR ''.'' (basename zp)) rel, c) \<in> set (snd (aggregate fs rs []))"
proof -
  have "(path_join (split_first CHR ''.'' (basename zp)) rel, c) \<in> set (result_entries fs (md, Some zp))"
    using assms(3-5) by (auto simp: result_entries_iff result_archive_Some)
  with assms(2) show ?thesis
    using aggregate_concat[OF assms(1)] by auto
qed

text \<open>The second of the two reports is written under \<open>report/\<close> as well.\<close>

theorem batch_archive_no_disambiguation_witness:
  "fst (aggregate [(''output/task_17/report.zip'', File (Archive [(''report.md'', Bytes ''from the pdf'')])),
              (''output/task_18/report.zip'', File (Archive [(''report.md'', Bytes ''from the docx'')]))]
     [(''from the pdf'', Some ''output/task_17/report.zip''), (''unsupported'', None),
      (''from the docx'', Some ''output/task_18/report.zip'')] []) = None
   \<and> (''from the docx'', Some ''output/task_18/report.zip'')
       \<in> set [(''from the pdf'', Some ''output/task_17/report.zip''), (''unsupported'', None),
                (''from the docx'', Some ''output/task_18/report.zip'')]
   \<and> (''report.md'', Bytes ''from the docx'') \<in> set (extract_members [(''report.md'', Bytes ''from the docx'')])
   \<and> (''report/report.md'', Bytes ''from the docx'')
       \<in> set (snd (aggregate [(''output/task_17/report.zip'', File (Archive [(''report.md'', Bytes ''from the pdf'')])),
              (''output/task_18/report.zip'', File (Archive [(''report.md'', Bytes ''from the docx'')]))]
     [(''from the pdf'', Some ''output/task_17/report.zip''), (''unsupported'', None),
      (''from the docx'', Some ''output/task_18/report.zip'')] []))"
  using batch_archive_no_disambiguation[of
     "[(''output/task_17/report.zip'', File (Archive [(''report.md'', Bytes ''from the pdf'')])),
       (''output/task_18/report.zip'', File (Archive [(''report.md'', Bytes ''from the docx'')]))]"
     "[(''from the pdf'', Some ''output/task_17/report.zip''), (''unsupported'', None),
       (''from the docx'', Some ''output/task_18/report.zip'')]"
     "''from the docx''" "''output/task_18/report.zip''" "[(''report.md'', Bytes ''from the docx'')]"
     "''report.md''" "Bytes ''from the docx''"]
  by (simp add: result_archive_def exists_path_def read_file_def split_first_def basename_def
        extract_members_def path_join_def startswith_def)

lemma process_pdf_zip_path:
  "fst (process_pdf ext self file_path task_id fs) = Inr r
     \<Longrightarrow> zip_path r = job_zip_path self task_id file_path"
  by (auto simp: process_pdf_def job_zip_path_def stem_def Let_def split: sum.splits prod.splits)

lemma process_docx_zip_path:
  "fst (process_docx ext self file_path task_id fs) = Inr r
     \<Longrightarrow> zip_path r = job_zip_path self task_id file_path"
  by (auto simp: process_docx_def job_zip_path_def stem_def Let_def split: sum.splits prod.splits)

lemma process_image_zip_path:
  "fst (process_image ext self file_path task_id fs) = Inr r
     \<Longrightarrow> zip_path r = job_zip_path self task_id file_path"
  by (auto simp: process_image_def job_zip_path_def stem_def Let_def split: sum.splits prod.splits)

lemma converted_Some:
  assumes "fst (converted res w) = Inr (md, zpo)"
  shows "\<exists>r. fst res = Inr r \<and> zpo = Some (zip_path r)"
  using assms by (cases res; cases "fst res") (auto simp: converted_def)

lemma process_file_other_ext:
  assumes "lower (snd (splitext file_path)) \<notin> set supported_extensions"
  shows "process_file ext self file_path w = (Inr (unsupported_msg, None), w\<lparr>ticks := Suc (ticks w)\<rparr>)"
  using assms
  by (simp add: process_file_def time_time_def supported_extensions_def Let_def)

lemma process_file_archive:
  assumes "fst (process_file ext self file_path w) = Inr (md, Some zp)"
  shows "\<exists>task_id. zp = job_zip_path self task_id file_path"
proof -
  define task_id where "task_id = ''task_'' @ str_int (int_of_float (clock w (ticks w)))"
  define w1 where "w1 = w\<lparr>ticks := Suc (ticks w)\<rparr>"
  define file_ext where "file_ext = lower (snd (splitext file_path))"
  have pf: "process_file ext self file_path w =
     (if file_ext = ''.pdf''
      then converted (process_pdf ext self file_path task_id (files w1)) w1
      else if file_ext \<in> set [''.doc'', ''.docx'']
      then converted (process_docx ext self file_path task_id (files w1)) w1
      else if file_ext \<in> set [''.jpg'', ''.jpeg'', ''.png'', ''.gif'']
      then converted (process_image ext self file_path task_id (files w1)) w1
      else (Inr (unsupported_msg, None), w1))"
    by (simp add: process_file_def time_time_def Let_def task_id_def w1_def file_ext_def)
  consider (pdf) "file_ext = ''.pdf''"
    | (docx) "file_ext \<noteq> ''.pdf''" "file_ext \<in> set [''.doc'', ''.docx'']"
    | (image) "file_ext \<noteq> ''.pdf''" "file_ext \<notin> set [''.doc'', ''.docx'']"
        "file_ext \<in> set [''.jpg'', ''.jpeg'', ''.png'', ''.gif'']"
    | (other) "file_ext \<noteq> ''.pdf''" "file_ext \<notin> set [''.doc'', ''.docx'']"
        "file_ext \<notin> set [''.jpg'', ''.jpeg'', ''.png'', ''.gif'']"
    by blast
  then have "zp = job_zip_path self task_id file_path"
  proof cases
    case pdf
    with assms pf have "fst (converted (process_pdf ext self file_path task_id (files w1)) w1)
        = Inr (md, Some zp)" by simp
    from converted_Some[OF this] show ?thesis
      by (auto dest: process_pdf_zip_path)
  next
    case docx
    with assms pf have "fst (converted (process_docx ext self file_path task_id (files w1)) w1)
        = Inr (md, Some zp)" by simp
    from converted_Some[OF this] show ?thesis
      by (auto dest: process_docx_zip_path)
  next
    case image
    with assms pf have "fst (converted (process_image ext self file_path task_id (files w1)) w1)
        = Inr (md, Some zp)" by simp
    from converted_Some[OF this] show ?thesis
      by (auto dest: process_image_zip_path)
  next
    case other
    with assms pf show ?thesis by simp
  qed
  then show ?thesis by blast
qed

lemma basename_no_slash: "CHR ''/'' \<notin> set (basename p)"
  by (auto simp: basename_def dest: set_takeWhileD)

lemma stem_chars: "CHR ''/'' \<notin> set (stem p)" "CHR ''.'' \<notin> set (stem p)"
  using basename_no_slash[of p]
  by (auto simp: stem_def split_first_def dest: set_takeWhileD)

lemma takeWhile_stop:
  "(\<forall>x\<in>set xs. P x) \<Longrightarrow> \<not> P y \<Longrightarrow> takeWhile P (xs @ y # ys) = xs"
  by (induction xs) auto

lemma basename_path_join:
  assumes "CHR ''/'' \<notin> set f"
  shows "basename (path_join d f) = f"
proof -
  have nf: "\<not> startswith f ''/''"
    using assms by (cases f) (auto simp: startswith_def)
  have tw: "takeWhile (\<lambda>c. c \<noteq> CHR ''/'') (rev f @ CHR ''/'' # xs) = rev f" for xs
    using assms by (intro takeWhile_stop) auto
  show ?thesis
  proof (cases "d = []")
    case True
    have tw0: "takeWhile (\<lambda>c. c \<noteq> CHR ''/'') (rev f) = rev f"
      using assms by (auto simp: takeWhile_eq_all_conv)
    from True nf show ?thesis
      by (simp add: path_join_def basename_def tw0)
  next
    case False
    show ?thesis
    proof (cases "last d = CHR ''/''")
      case True
      with False obtain d' where d: "d = d' @ ''/''"
        by (metis append_butlast_last_id)
      with nf tw[of "rev d'"] show ?thesis
        by (simp add: path_join_def basename_def)
    next
      case False
      with nf \<open>d \<noteq> []\<close> tw[of "rev d"] show ?thesis
        by (simp add: path_join_def basename_def)
    qed
  qed
qed

lemma stem_job_zip_path:
  "split_first CHR ''.'' (basename (job_zip_path self task_id file_path)) = stem file_path"
proof -
  have "CHR ''/'' \<notin> set (stem file_path @ ''.zip'')"
    using stem_chars(1)[of file_path] by simp
  then have "basename (job_zip_path self task_id file_path) = stem file_path @ ''.zip''"
    unfolding job_zip_path_def by (rule basename_path_join)
  moreover have "takeWhile (\<lambda>c. c \<noteq> CHR ''.'') (stem file_path @ CHR ''.'' # ''zip'') = stem file_path"
    using stem_chars(2)[of file_path] by (intro takeWhile_stop) auto
  ultimately show ?thesis
    by (simp add: split_first_def)
qed

lemma batch_job_outcome:
  "fst (batch_job ext self file_path st) = fst (process_file ext self file_path (fst st))"
  by (simp add: batch_job_def case_prod_unfold Let_def)

lemma set_map_filter:
  "y \<in> set (List.map_filter g xs) \<longleftrightarrow> (\<exists>x\<in>set xs. g x = Some y)"
  by (induction xs) (auto split: option.splits)

text \<open>
  What does hold of the batch archive, for every order of completion: when
  \<open>batch_process_files\<close> returns, each member of the batch archive at the returned path is
  named \<open>os.path.join(base name, relative path)\<close> for an input file whose job returned an
  archive path; for the input \<open>a.pdf\<close>, \<open>b.docx\<close>, \<open>c.xyz\<close> the job of \<open>c.xyz\<close> returns the
  unsupported-file-type message without an archive path, and every member lies under \<open>a\<close> or
  under \<open>b\<close>. This speaks of the names of the members only, not of where their contents
  come from.
\<close>

lemma batch_archive_member_names:
  assumes run: "batch_jobs ext self file_paths completion w = Inr P"
    and ret: "batch_process_files ext self file_paths completion w = (Inr zpath, w')"
  shows "\<exists>batch_zip. map_of (files w') zpath = Some (File (Archive batch_zip))
     \<and> (\<forall>(n, c) \<in> set batch_zip. \<exists>k<length file_paths. \<exists>md zp rel.
            returned P k = Some (md, Some zp) \<and> n = path_join (stem (file_paths ! k)) rel)
     \<and> (file_paths = [''a.pdf'', ''b.docx'', ''c.xyz''] \<longrightarrow>
            returned P 2 = Some (unsupported_msg, None)
          \<and> (\<forall>(n, c) \<in> set batch_zip. \<exists>rel. n = path_join ''a'' rel \<or> n = path_join ''b'' rel))"
proof -
  have mw: "0 < max_workers (processor self)"
    using run by (auto simp: batch_jobs_def process_items_def split: if_splits)
  from process_items_inv[OF mw, of file_paths "batch_job ext self" "Some process_callback"
         completion "snd (batch_start self file_paths w)"] run
  have all: "\<forall>k<length file_paths. finished P k \<noteq> None"
    and outs: "job_outcomes (batch_job ext self) file_paths P"
    and res: "results P = List.map_filter (returned P) [0..<length file_paths]"
    by (auto simp: batch_jobs_def)
  define zp_batch where
    "zp_batch = path_join (fst (batch_start self file_paths w)) ''batch_results.zip''"
  define fs_open where "fs_open = write_file zp_batch (Bytes []) (files (fst (world P)))"
  define agg where "agg = aggregate fs_open (results P) []"
  have bp: "batch_process_files ext self file_paths completion w =
      (case fst agg of
         Some e \<Rightarrow> (Inl e, (fst (world P))\<lparr>files := write_file zp_batch (Archive (snd agg)) fs_open\<rparr>)
       | None \<Rightarrow> (Inr zp_batch, (fst (world P))\<lparr>files := write_file zp_batch (Archive (snd agg)) fs_open\<rparr>))"
    using run
    by (simp add: batch_process_files_def Let_def agg_def fs_open_def zp_batch_def case_prod_unfold
          split: option.splits)
  from ret bp have ok: "fst agg = None" and z: "zpath = zp_batch"
    and w': "w' = (fst (world P))\<lparr>files := write_file zp_batch (Archive (snd agg)) fs_open\<rparr>"
    by (auto split: option.splits)
  have 1: "map_of (files w') zpath = Some (File (Archive (snd agg)))"
    by (simp add: w' z write_file_def map_of_put)
  have entries: "snd agg = concat (map (result_entries fs_open) (results P))"
    using aggregate_concat[of fs_open "results P" "[]"] ok by (simp add: agg_def)
  have src: "\<exists>k<length file_paths. \<exists>md zp rel.
            returned P k = Some (md, Some zp) \<and> n = path_join (stem (file_paths ! k)) rel"
    if "(n, c) \<in> set (snd agg)" for n c
  proof -
    from that entries obtain r where r: "r \<in> set (results P)" "(n, c) \<in> set (result_entries fs_open r)"
      by auto
    from r(2) obtain zp rel where zp: "result_archive r = Some zp"
      and n: "n = path_join (split_first CHR ''.'' (basename zp)) rel"
      unfolding result_entries_iff by blast
    from zp have r_eq: "r = (fst r, Some zp)"
      by (cases r) (simp add: result_archive_Some)
    from r(1) res obtain k where k: "k < length file_paths" "returned P k = Some r"
      by (auto simp: set_map_filter)
    from k(2) have fin: "finished P k = Some (Inr r)"
      by (auto simp: returned_def split: option.splits sum.splits)
    with outs obtain st where "Inr r = fst (batch_job ext self (file_paths ! k) st)"
      unfolding job_outcomes_def by blast
    then have "fst (process_file ext self (file_paths ! k) (fst st)) = Inr (fst r, Some zp)"
      using r_eq by (simp add: batch_job_outcome)
    from process_file_archive[OF this] obtain task_id where
      "zp = job_zip_path self task_id (file_paths ! k)" by blast
    then have "split_first CHR ''.'' (basename zp) = stem (file_paths ! k)"
      by (simp add: stem_job_zip_path)
    with n k r_eq show ?thesis by metis
  qed
  have 2: "\<forall>(n, c) \<in> set (snd agg). \<exists>k<length file_paths. \<exists>md zp rel.
            returned P k = Some (md, Some zp) \<and> n = path_join (stem (file_paths ! k)) rel"
    using src by blast
  have 3: "returned P 2 = Some (unsupported_msg, None)
          \<and> (\<forall>(n, c) \<in> set (snd agg). \<exists>rel. n = path_join ''a'' rel \<or> n = path_join ''b'' rel)"
    if fp: "file_paths = [''a.pdf'', ''b.docx'', ''c.xyz'']"
  proof -
    have "(2::nat) < length file_paths" by (simp add: fp)
    with all have "finished P 2 \<noteq> None" by blast
    then obtain out where out: "finished P 2 = Some out" by blast
    with outs obtain st where "out = fst (batch_job ext self (file_paths ! 2) st)"
      unfolding job_outcomes_def by blast
    moreover have "lower (snd (splitext ''c.xyz'')) \<notin> set supported_extensions"
      by (simp add: lower_def splitext_def basename_def lower_char_def supported_extensions_def)
    ultimately have "out = Inr (unsupported_msg, None)"
      using fp by (simp add: batch_job_outcome process_file_other_ext)
    with out have c: "returned P 2 = Some (unsupported_msg, None)"
      by (simp add: returned_def)
    have "\<exists>rel. n = path_join ''a'' rel \<or> n = path_join ''b'' rel" if "(n, c) \<in> set (snd agg)" for n c
    proof -
      from src[OF that] obtain k md zp rel where k: "k < length file_paths"
        "returned P k = Some (md, Some zp)" "n = path_join (stem (file_paths ! k)) rel"
        by blast
      from k(1) fp have "k = 0 \<or> k = 1 \<or> k = 2" by auto
      with k(2) c have "k = 0 \<or> k = 1" by auto
      then have "stem (file_paths ! k) = ''a'' \<or> stem (file_paths ! k) = ''b''"
        using fp by (auto simp: stem_def split_first_def basename_def)
      with k(3) show ?thesis by auto
    qed
    with c show ?thesis by blast
  qed
  from 1 2 3 show ?thesis by blast
qed

text \<open>
  Claim C3 asks for distinct task identifiers and disjoint workspaces for jobs that are
  active together, also within one second. The identifier is \<open>task_\<close> followed by the clock
  reading truncated to whole seconds: two jobs that read the clock at 1700000000.1 and
  1700000000.6 both work in \<open>output/task_1700000000\<close>, and the archive of the second job
  contains the image that the first job extracted.
\<close>

theorem task_ids_collide_within_one_second:
  "map_sum id snd (fst (process_file example_externals example_converter ''a.docx''
        (example_world (17000000001 / 10) (1 / 2))))
     = Inr (Some ''output/task_1700000000/a.zip'')
   \<and> map_sum id snd (fst (process_file example_externals example_converter ''b.docx''
        (snd (process_file example_externals example_converter ''a.docx''
           (example_world (17000000001 / 10) (1 / 2))))))
     = Inr (Some ''output/task_1700000000/b.zip'')
   \<and> map_of (files (snd (process_file example_externals example_converter ''b.docx''
        (snd (process_file example_externals example_converter ''a.docx''
           (example_world (17000000001 / 10) (1 / 2)))))))
        ''output/task_1700000000/b.zip''
     = Some (File (Archive [(''b.md'', Bytes ''## Beta''),
                            (''images/image_1.png'', Bytes ''PNG-A'')]))"
  by code_simp

text \<open>
  Claim C4 asks that failed jobs contribute no entries to the batch archive. The jobs of one
  batch that read the clock within one second share their workspace
  \<open>output/task_<seconds>\<close>. For the batch \<open>pic.png\<close>, \<open>a.pdf\<close> with the OCR of the image
  raising: the job of \<open>pic.png\<close> raises after it has copied the image to
  \<open>output/task_17/images/pic.png\<close>, the job of \<open>a.pdf\<close> then puts every file of
  \<open>output/task_17/images\<close> into its archive, and the batch archive holds the file of the
  failed job as \<open>a/images/pic.png\<close>.
\<close>

theorem failed_job_file_in_batch_archive:
  "fst (batch_process_files failing_ocr_externals example_converter [''pic.png'', ''a.pdf''] [0, 1]
          (example_world 17 (1 / 4)))
     = Inr ''output/batch_17/batch_results.zip''
   \<and> map (finished (projr (batch_jobs failing_ocr_externals example_converter
          [''pic.png'', ''a.pdf''] [0, 1] (example_world 17 (1 / 4))))) [0, 1]
     = [Some (Inl (LibraryError ''OCR failed'')),
        Some (Inr (''pdf text'', Some ''output/task_17/a.zip''))]
   \<and> results (projr (batch_jobs failing_ocr_externals example_converter
          [''pic.png'', ''a.pdf''] [0, 1] (example_world 17 (1 / 4))))
     = [(''pdf text'', Some ''output/task_17/a.zip'')]
   \<and> map_of (files (example_world 17 (1 / 4))) ''pic.png'' = Some (File (Bytes ''PNG''))
   \<and> map_of (files (snd (batch_process_files failing_ocr_externals example_converter
          [''pic.png'', ''a.pdf''] [0, 1] (example_world 17 (1 / 4)))))
        ''output/batch_17/batch_results.zip''
     = Some (File (Archive [(''a/a.md'', Bytes ''pdf text''), (''a/images/pic.png'', Bytes ''PNG''),
                            (''a/images/fig.jpg'', Bytes ''JPG'')]))"
  by code_simp

end
